theory Spec2Isabelle
  imports Main "HOL-Library.Word" "HOL-Library.AList" "HOL-Library.Multiset"
begin

section \<open>The operating-system interface seen by \<open>lib/misc/spawn.c\<close>\<close>

text \<open>
  The calling process owns a table of open file descriptors and a finite table of
  child processes.  Every system call advances a logical clock and is appended to a
  trace, so that the order of the calls made by the code can be stated.  A child
  that exits does so at some clock value chosen by the environment
  (\<open>c_exit_at\<close>); it stays in the table as a zombie until a wait reaps it.
\<close>

datatype signal = SIGTERM | SIGPIPE | SIGKILL

text \<open>Why \<open>lws_create_basic_wsi\<close> returned a null pointer (recorded in the trace).\<close>

datatype create_fail = NoVhost | NoSpace | NoMem

datatype event =
    EvPipe int int
  | EvPipeFailed
  | EvClose int
  | EvCloseBad int
  | EvFcntl int
  | EvCloexec int
  | EvKill int signal
  | EvWaitpid int int
  | EvFork int
  | EvPrctl
  | EvSetpgrp
  | EvChdir
  | EvDup2 int int
  | EvSetenv string string
  | EvExec
  | EvCreateFail create_fail
  | EvLog string

record child =
  c_pid :: int
  c_pgid :: int
  c_exit_at :: "nat option"

record os =
  open_fds :: "int list"
  children :: "child list"
  clock :: nat
  kill_ok :: "int \<Rightarrow> signal \<Rightarrow> bool"
  self_pid :: int
  self_pgid :: int
  self_pdeathsig :: "signal option"
  cwd :: string
  environ :: "(string \<times> string) list"
  trace :: "event list"

definition emit :: "event \<Rightarrow> os \<Rightarrow> os" where
  "emit e w = w\<lparr>clock := Suc (clock w), trace := trace w @ [e]\<rparr>"

definition lwsl :: "string \<Rightarrow> os \<Rightarrow> os" where
  "lwsl msg w = w\<lparr>trace := trace w @ [EvLog msg]\<rparr>"

text \<open>\<open>waitpid(p, &status, WNOHANG)\<close>: which children \<open>p\<close> selects.\<close>

definition wait_selects :: "os \<Rightarrow> int \<Rightarrow> child \<Rightarrow> bool" where
  "wait_selects w p c =
     (if p > 0 then c_pid c = p
      else if p = 0 then c_pgid c = self_pgid w
      else if p = -1 then True
      else c_pgid c = - p)"

definition has_exited :: "nat \<Rightarrow> child \<Rightarrow> bool" where
  "has_exited t c = (case c_exit_at c of None \<Rightarrow> False | Some e \<Rightarrow> e \<le> t)"

definition waitpid_nohang :: "int \<Rightarrow> os \<Rightarrow> int \<times> os" where
  "waitpid_nohang p w =
     (case filter (wait_selects w p) (children w) of
        [] \<Rightarrow> (-1, emit (EvWaitpid p (-1)) w)
      | c0 # cs \<Rightarrow>
          (case filter (has_exited (clock w)) (c0 # cs) of
             [] \<Rightarrow> (0, emit (EvWaitpid p 0) w)
           | z # _ \<Rightarrow> (c_pid z,
                emit (EvWaitpid p (c_pid z)) (w\<lparr>children := remove1 z (children w)\<rparr>))))"

text \<open>\<open>kill(target, sig)\<close>: 0 on success, -1 on failure, as the environment decides.\<close>

definition kill :: "int \<Rightarrow> signal \<Rightarrow> os \<Rightarrow> int \<times> os" where
  "kill target sg w = ((if kill_ok w target sg then 0 else -1), emit (EvKill target sg) w)"

text \<open>\<open>close(fd)\<close>: closing a descriptor that is not open is recorded as such.\<close>

definition close_fd :: "int \<Rightarrow> os \<Rightarrow> os" where
  "close_fd fd w =
     (if fd \<in> set (open_fds w)
      then emit (EvClose fd) (w\<lparr>open_fds := removeAll fd (open_fds w)\<rparr>)
      else emit (EvCloseBad fd) w)"

text \<open>
  \<open>pipe(fds)\<close>: on success the two lowest unused descriptor numbers are opened (read
  end first); on failure nothing is opened and the array is left as it was.
\<close>

definition lowest_free :: "int list \<Rightarrow> int" where
  "lowest_free fds = hd (filter (\<lambda>n. n \<notin> set fds) (map int [0..<Suc (length fds)]))"

definition pipe :: "bool \<Rightarrow> os \<Rightarrow> (int \<times> int) option \<times> os" where
  "pipe ok w =
     (if ok then
        (let r = lowest_free (open_fds w);
             wr = lowest_free (r # open_fds w)
         in (Some (r, wr), emit (EvPipe r wr) (w\<lparr>open_fds := wr # r # open_fds w\<rparr>)))
      else (None, emit EvPipeFailed w))"

text \<open>\<open>prctl(PR_SET_PDEATHSIG, SIGTERM)\<close> and \<open>setpgrp()\<close> act on the calling process.\<close>

definition prctl_pdeathsig :: "os \<Rightarrow> os" where
  "prctl_pdeathsig w = emit EvPrctl (w\<lparr>self_pdeathsig := Some SIGTERM\<rparr>)"

definition setpgrp :: "os \<Rightarrow> os" where
  "setpgrp w = emit EvSetpgrp (w\<lparr>self_pgid := self_pid w\<rparr>)"

text \<open>
  \<open>fork()\<close> / \<open>vfork()\<close>: a negative result is a failure; a positive result is the
  new child's pid, returned in the parent; 0 is returned in the child, whose own
  process state starts as a copy of the parent's with no children, no parent-death
  signal and the pid \<open>new_pid\<close>.
\<close>

definition fork :: "int \<Rightarrow> int \<Rightarrow> os \<Rightarrow> os" where
  "fork res new_pid w =
     (if res < 0 then emit (EvFork res) w
      else if res > 0 then
        emit (EvFork res)
          (w\<lparr>children := children w @ [\<lparr>c_pid = res, c_pgid = self_pgid w, c_exit_at = None\<rparr>]\<rparr>)
      else
        emit (EvFork 0) (w\<lparr>children := [], self_pid := new_pid, self_pdeathsig := None\<rparr>))"

text \<open>\<open>setenv(name, value, 1)\<close>: an empty name is rejected (EINVAL), which the caller ignores.\<close>

definition setenv :: "string \<Rightarrow> string \<Rightarrow> os \<Rightarrow> os" where
  "setenv k v w =
     (if k = [] then emit (EvSetenv k v) w
      else emit (EvSetenv k v) (w\<lparr>environ := AList.update k v (environ w)\<rparr>))"

text \<open>\<open>dup2(oldfd, newfd)\<close>: on success \<open>newfd\<close> is open afterwards; -1 on failure.\<close>

definition dup2 :: "bool \<Rightarrow> int \<Rightarrow> int \<Rightarrow> os \<Rightarrow> int \<times> os" where
  "dup2 ok oldfd newfd w =
     (if ok then
        (newfd, emit (EvDup2 oldfd newfd)
           (if newfd \<in> set (open_fds w) then w else w\<lparr>open_fds := newfd # open_fds w\<rparr>))
      else (-1, emit (EvDup2 oldfd newfd) w))"

text \<open>\<open>chdir("/tmp")\<close>.\<close>

definition chdir_tmp :: "bool \<Rightarrow> os \<Rightarrow> os" where
  "chdir_tmp ok w =
     (if ok then emit EvChdir (w\<lparr>cwd := ''/tmp''\<rparr>)
      else lwsl ''Failed to chdir'' (emit EvChdir w))"

text \<open>
  \<open>strchr(e, '=')\<close> followed by \<open>*p++ = '\0'\<close>: the entry is cut at its first \<open>=\<close>;
  there is no result when the entry has none (the write goes through a null pointer).
\<close>

definition split_eq :: "string \<Rightarrow> (string \<times> string) option" where
  "split_eq e =
     (if CHR ''='' \<in> set e
      then Some (takeWhile (\<lambda>c. c \<noteq> CHR ''='') e, tl (dropWhile (\<lambda>c. c \<noteq> CHR ''='') e))
      else None)"

section \<open>The reactor context and its descriptors\<close>

text \<open>
  \<open>struct lws\<close> (the fields this file touches), \<open>struct lws_vhost\<close> and
  \<open>struct lws_context\<close>.  Descriptors live in a store indexed by reference;
  \<open>pt_fds\<close> is the per-thread polling table, whose length is \<open>pt[tsi].fds_count\<close>.
  A null \<open>vhost_list\<close> is the empty list, a null \<open>protocols\<close> pointer the empty array.
\<close>

record lws_protocols =
  pr_name :: string

record lws_vhost =
  vh_name :: string
  protocols :: "lws_protocols list"

record lws =
  wsi_tsi :: nat
  pending_timeout :: int
  rxflow_change_to :: int
  wsi_role_ops :: string
  lrs_established :: bool
  hdr_parsing_completed :: bool
  position_in_fds_table :: int
  user_space :: "nat option"
  desc_sockfd :: int
  lsp_channel :: int
  wsi_vhost :: "string option"
  wsi_protocol :: "lws_protocols option"
  wsi_parent :: "nat option"
  sibling_list :: "nat option"
  child_list :: "nat option"
  poll_in :: bool
  poll_out :: bool

record lws_context =
  vhost_list :: "lws_vhost list"
  pt_fds :: "nat \<Rightarrow> nat list"
  fd_limit_per_thread :: "32 word"
  count_wsi_allocated :: int
  wsis :: "nat \<Rightarrow> lws option"
  next_wsi :: nat

definition NO_PENDING_TIMEOUT :: int where "NO_PENDING_TIMEOUT = 0"
definition LWS_RXFLOW_ALLOW :: int where "LWS_RXFLOW_ALLOW = 1"
definition LWS_NO_FDS_POS :: int where "LWS_NO_FDS_POS = -1"
definition LWS_SOCK_INVALID :: int where "LWS_SOCK_INVALID = -1"

definition fds_count :: "lws_context \<Rightarrow> nat \<Rightarrow> nat" where
  "fds_count context tsi = length (pt_fds context tsi)"

text \<open>
  \<open>lws_create_basic_wsi\<close>.  The three null returns are told apart by the reason; the
  allocation \<open>lws_zalloc\<close> succeeds or not as the environment decides (\<open>zalloc_ok\<close>).
\<close>

definition lws_create_basic_wsi ::
  "lws_context \<Rightarrow> nat \<Rightarrow> string \<Rightarrow> bool \<Rightarrow> (create_fail + nat) \<times> lws_context" where
  "lws_create_basic_wsi context tsi ops' zalloc_ok =
     (if vhost_list context = [] then (Inl NoVhost, context)
      else if (of_nat (fds_count context tsi) :: 32 word) = fd_limit_per_thread context - 1
      then (Inl NoSpace, context)
      else if \<not> zalloc_ok then (Inl NoMem, context)
      else
        (let new_wsi = \<lparr>wsi_tsi = tsi,
                        pending_timeout = NO_PENDING_TIMEOUT,
                        rxflow_change_to = LWS_RXFLOW_ALLOW,
                        wsi_role_ops = ops',
                        lrs_established = True,
                        hdr_parsing_completed = False,
                        position_in_fds_table = LWS_NO_FDS_POS,
                        user_space = None,
                        desc_sockfd = LWS_SOCK_INVALID,
                        lsp_channel = 0,
                        wsi_vhost = None,
                        wsi_protocol = None,
                        wsi_parent = None,
                        sibling_list = None,
                        child_list = None,
                        poll_in = False,
                        poll_out = False\<rparr>;
             r = next_wsi context
         in (Inr r,
             context\<lparr>wsis := (wsis context)(r := Some new_wsi),
                      next_wsi := Suc r,
                      count_wsi_allocated := count_wsi_allocated context + 1\<rparr>)))"

text \<open>Updating a descriptor through its reference.\<close>

definition wsi_upd :: "nat \<Rightarrow> (lws \<Rightarrow> lws) \<Rightarrow> lws_context \<Rightarrow> lws_context" where
  "wsi_upd r f context =
     (case wsis context r of
        None \<Rightarrow> context
      | Some x \<Rightarrow> context\<lparr>wsis := (wsis context)(r := Some (f x))\<rparr>)"

text \<open>
  Modelled from the spec: the reactor collaborators that are not part of this file.
  \<open>__insert_wsi_socket_into_fds\<close> inserts the descriptor into the per-thread polling
  table, \<open>__remove_wsi_socket_from_fds\<close> removes it, \<open>__lws_free_wsi\<close> destroys a
  descriptor object and gives back its slot of the live-descriptor counter (it does
  not close the raw fd: the pipe ends stay with the handle, which closes them),
  \<open>lws_change_pollfd\<close> clears and sets poll interest, \<open>lws_vhost_bind_wsi\<close> ties
  the descriptor to the vhost, \<open>lws_vhost_name_to_protocol\<close> looks a protocol up by
  name.  \<open>lws_role_transition\<close> is the assignment of the role state and role
  operations inside \<open>lws_create_basic_wsi\<close>.  Whether allocation, the optional
  \<open>sock_accept\<close> hook, insertion and interest change succeed is decided by the
  environment.
\<close>

definition insert_wsi_socket_into_fds :: "nat \<Rightarrow> lws_context \<Rightarrow> lws_context" where
  "insert_wsi_socket_into_fds r context =
     (case wsis context r of
        None \<Rightarrow> context
      | Some x \<Rightarrow>
          wsi_upd r (\<lambda>x. x\<lparr>position_in_fds_table := int (fds_count context (wsi_tsi x))\<rparr>)
            (context\<lparr>pt_fds := (pt_fds context)(wsi_tsi x := pt_fds context (wsi_tsi x) @ [r])\<rparr>))"

definition remove_wsi_socket_from_fds :: "nat \<Rightarrow> lws_context \<Rightarrow> lws_context" where
  "remove_wsi_socket_from_fds r context =
     (case wsis context r of
        None \<Rightarrow> context
      | Some x \<Rightarrow>
          wsi_upd r (\<lambda>x. x\<lparr>position_in_fds_table := LWS_NO_FDS_POS\<rparr>)
            (context\<lparr>pt_fds := (pt_fds context)(wsi_tsi x := remove1 r (pt_fds context (wsi_tsi x)))\<rparr>))"

definition lws_free_wsi :: "nat \<Rightarrow> lws_context \<Rightarrow> lws_context" where
  "lws_free_wsi r context =
     (case wsis context r of
        None \<Rightarrow> context
      | Some x \<Rightarrow>
          context\<lparr>wsis := (wsis context)(r := None),
                   count_wsi_allocated := count_wsi_allocated context - 1\<rparr>)"

definition lws_change_pollfd :: "nat \<Rightarrow> bool \<times> bool \<Rightarrow> bool \<times> bool \<Rightarrow> lws_context \<Rightarrow> lws_context" where
  "lws_change_pollfd r and' or' context =
     wsi_upd r (\<lambda>x. x\<lparr>poll_in := (poll_in x \<and> \<not> fst and') \<or> fst or',
                        poll_out := (poll_out x \<and> \<not> snd and') \<or> snd or'\<rparr>) context"

definition LWS_POLLIN :: "bool \<times> bool" where "LWS_POLLIN = (True, False)"
definition LWS_POLLOUT :: "bool \<times> bool" where "LWS_POLLOUT = (False, True)"

definition lws_vhost_bind_wsi :: "lws_vhost \<Rightarrow> nat \<Rightarrow> lws_context \<Rightarrow> lws_context" where
  "lws_vhost_bind_wsi vh r context = wsi_upd r (\<lambda>x. x\<lparr>wsi_vhost := Some (vh_name vh)\<rparr>) context"

definition lws_vhost_name_to_protocol :: "lws_vhost \<Rightarrow> string \<Rightarrow> lws_protocols option" where
  "lws_vhost_name_to_protocol vh name = find (\<lambda>p. pr_name p = name) (protocols vh)"

section \<open>The spawn handle\<close>

text \<open>
  \<open>struct lws_spawn_piped\<close>: \<open>pipe_fds[3][2]\<close> is a function from the channel index to
  the pair (read end, write end); \<open>stdwsi[3]\<close> holds references into the descriptor
  store, \<open>None\<close> for a null pointer.
\<close>

record lws_spawn_piped =
  pipe_fds :: "nat \<Rightarrow> int \<times> int"
  stdwsi :: "nat \<Rightarrow> nat option"
  child_pid :: int
  do_setpgrp :: bool
  ops :: "string option"
  dll_owner :: "nat option"
  sul_scheduled :: "(string \<times> int) option"

section \<open>Lifecycle manager: \<open>lws_spawn_piped_kill_child_process\<close>\<close>

lemma waitpid_reaps_shrinks:
  "waitpid_nohang p w = (n, w') \<Longrightarrow> n > 0 \<Longrightarrow> length (children w') < length (children w)"
proof -
  assume a: "waitpid_nohang p w = (n, w')" and pos: "n > 0"
  show ?thesis
  proof (cases "filter (wait_selects w p) (children w)")
    case Nil
    with a pos show ?thesis by (simp add: waitpid_nohang_def)
  next
    case (Cons c0 cs)
    show ?thesis
    proof (cases "filter (has_exited (clock w)) (c0 # cs)")
      case Nil
      with a pos Cons show ?thesis by (simp add: waitpid_nohang_def)
    next
      case (Cons z zs)
      then have "z \<in> set (filter (has_exited (clock w)) (c0 # cs))" by simp
      then have "z \<in> set (c0 # cs)" by (metis filter_is_subset subsetD)
      with \<open>filter (wait_selects w p) (children w) = c0 # cs\<close>
      have zin: "z \<in> set (children w)" by (metis filter_is_subset subsetD)
      have "children w' = remove1 z (children w)"
        using a Cons \<open>filter (wait_selects w p) (children w) = c0 # cs\<close>
        by (auto simp: waitpid_nohang_def emit_def)
      moreover have "0 < length (children w)"
        using zin by (rule length_pos_if_in_set)
      ultimately show ?thesis
        using zin by (simp add: length_remove1)
    qed
  qed
qed

lemma waitpid_no_growth:
  "waitpid_nohang p w = (n, w') \<Longrightarrow> length (children w') \<le> length (children w)"
  by (auto simp: waitpid_nohang_def emit_def length_remove1 split: list.splits)

text \<open>
  The loop \<open>n = 1; while (n > 0) { ... }\<close> at the end of the function: one pass waits on
  the negated pid and, when that reaped nothing, on the bare pid; the loop repeats
  while the last wait of the pass returned a positive pid.
\<close>

function drain_loop :: "int \<Rightarrow> os \<Rightarrow> os" where
  "drain_loop pid w =
     (case waitpid_nohang (- pid) w of
        (n, w1) \<Rightarrow>
          if n > 0 then drain_loop pid w1
          else (case waitpid_nohang pid w1 of
                  (n2, w2) \<Rightarrow> if n2 > 0 then drain_loop pid w2 else w2))"
  by pat_completeness auto
termination
proof (relation "measure (\<lambda>(pid, w). length (children w))", goal_cases)
  case 1
  show ?case by simp
next
  case (2 pid w n w1)
  then show ?case
    using waitpid_reaps_shrinks [of "- pid" w n w1] by simp
next
  case (3 pid w n w1 n2 w2)
  have "length (children w1) \<le> length (children w)"
    using 3 waitpid_no_growth [of "- pid" w n w1] by simp
  moreover have "length (children w2) < length (children w1)"
    using 3 waitpid_reaps_shrinks [of pid w1 n2 w2] by simp
  ultimately show ?case by simp
qed

declare drain_loop.simps [simp del]

text \<open>The escalation \<open>kill(-pid, SIGTERM)\<close>, then the three fallbacks on the bare pid.\<close>

definition escalate :: "int \<Rightarrow> os \<Rightarrow> os" where
  "escalate pid w =
     (case kill (- pid) SIGTERM w of
        (n, w1) \<Rightarrow>
          if n < 0 then
            (case kill pid SIGTERM w1 of
               (n, w2) \<Rightarrow>
                 if n < 0 then
                   (case kill pid SIGPIPE w2 of
                      (n, w3) \<Rightarrow>
                        if n < 0 then
                          (case kill pid SIGKILL w3 of
                             (n, w4) \<Rightarrow>
                               if n < 0 then lwsl ''SIGKILL failed (maybe zombie)'' w4
                               else w4)
                        else w3)
                 else w2)
          else w1)"

definition lws_spawn_piped_kill_child_process ::
  "lws_spawn_piped \<Rightarrow> os \<Rightarrow> int \<times> lws_spawn_piped \<times> os" where
  "lws_spawn_piped_kill_child_process lsp w =
     (if child_pid lsp \<le> 0 then (1, lsp, w)
      else
        (case waitpid_nohang (child_pid lsp) w of
           (n, w1) \<Rightarrow>
             if n > 0 then (0, lsp\<lparr>child_pid := -1\<rparr>, w1)
             else (0, lsp\<lparr>child_pid := -1\<rparr>,
                   drain_loop (child_pid lsp) (escalate (child_pid lsp) w1))))"


section \<open>Teardown: \<open>lws_spawn_piped_destroy\<close>\<close>

record sys =
  s_lsp :: lws_spawn_piped
  s_ctx :: lws_context
  s_os :: os

definition on_os :: "(os \<Rightarrow> os) \<Rightarrow> sys \<Rightarrow> sys" where
  "on_os f s = s\<lparr>s_os := f (s_os s)\<rparr>"

definition on_ctx :: "(lws_context \<Rightarrow> lws_context) \<Rightarrow> sys \<Rightarrow> sys" where
  "on_ctx f s = s\<lparr>s_ctx := f (s_ctx s)\<rparr>"

definition on_lsp :: "(lws_spawn_piped \<Rightarrow> lws_spawn_piped) \<Rightarrow> sys \<Rightarrow> sys" where
  "on_lsp f s = s\<lparr>s_lsp := f (s_lsp s)\<rparr>"

text \<open>
  \<open>pipe_fds[n][!!(n == 0)]\<close> is the half the parent keeps (the write end of stdin, the
  read end of stdout and stderr); \<open>pipe_fds[n][!(n == 0)]\<close> is the child's half.
\<close>

definition retained :: "lws_spawn_piped \<Rightarrow> nat \<Rightarrow> int" where
  "retained lsp n = (if n = 0 then snd (pipe_fds lsp n) else fst (pipe_fds lsp n))"

definition other_half :: "lws_spawn_piped \<Rightarrow> nat \<Rightarrow> int" where
  "other_half lsp n = (if n = 0 then fst (pipe_fds lsp n) else snd (pipe_fds lsp n))"




definition lws_dll2_add_head :: "nat \<Rightarrow> lws_spawn_piped \<Rightarrow> lws_spawn_piped" where
  "lws_dll2_add_head owner lsp = lsp\<lparr>dll_owner := Some owner\<rparr>"


definition lws_sul_schedule :: "string \<Rightarrow> int \<Rightarrow> lws_spawn_piped \<Rightarrow> lws_spawn_piped" where
  "lws_sul_schedule cb us lsp = lsp\<lparr>sul_scheduled := Some (cb, us)\<rparr>"



section \<open>The launcher: \<open>lws_spawn_piped\<close>\<close>

text \<open>
  The arguments of the call, the decisions the environment takes during it (which
  system call or collaborator fails, what the duplication returns), and the two
  compile-time switches of the file.
\<close>

record spawn_args =
  owner :: "nat option"
  vh :: lws_vhost
  tsi :: nat
  opt_parent :: "nat option"
  exec_array :: "string list"
  env_array :: "string list"
  pcon :: "string option"
  timeout :: int
  timeout_cb :: string

record decisions =
  pipe_ok :: "nat \<Rightarrow> bool"
  zalloc_ok :: "nat \<Rightarrow> bool"
  fcntl_ok :: "nat \<Rightarrow> bool"
  sock_accept :: "(nat \<Rightarrow> bool) option"
  insert_ok :: "nat \<Rightarrow> bool"
  change_pollfd_ok :: "nat \<Rightarrow> bool"
  fork_result :: int
  fork_new_pid :: int
  chdir_ok :: bool
  dup2_ok :: "nat \<Rightarrow> bool"
  exec_ok :: bool

record build =
  have_vfork_execvpe :: bool
  is_linux :: bool

text \<open>
  How a call ends: it returns a value, the process ends through \<open>exit\<close>, the program
  image is replaced (path, argument vector, environment of the new image), or a null
  pointer is dereferenced.
\<close>

datatype outcome =
    Returned int
  | Exited int
  | Execed string "string list" "string list"
  | NullDeref

datatype goto = Done | Bail3 nat | Null

text \<open>\<open>bail1\<close>: close every pipe descriptor still marked valid, then fail.\<close>

definition bail1_step :: "nat \<Rightarrow> sys \<Rightarrow> sys" where
  "bail1_step n s =
     (let s1 = (if fst (pipe_fds (s_lsp s) n) \<ge> 0
                then on_os (close_fd (fst (pipe_fds (s_lsp s) n))) s else s)
      in if snd (pipe_fds (s_lsp s1) n) \<ge> 0
         then on_os (close_fd (snd (pipe_fds (s_lsp s1) n))) s1 else s1)"

definition bail1 :: "sys \<Rightarrow> outcome \<times> sys" where
  "bail1 s = (Returned (-1), on_os (lwsl ''failed'') (bail1_step 2 (bail1_step 1 (bail1_step 0 s))))"

text \<open>\<open>bail2\<close>: free every descriptor whose slot in \<open>stdwsi\<close> is not null.\<close>

definition bail2_step :: "nat \<Rightarrow> sys \<Rightarrow> sys" where
  "bail2_step n s =
     (case stdwsi (s_lsp s) n of
        None \<Rightarrow> s
      | Some r \<Rightarrow> on_ctx (lws_free_wsi r) s)"

definition bail2 :: "sys \<Rightarrow> outcome \<times> sys" where
  "bail2 s = bail1 (bail2_step 2 (bail2_step 1 (bail2_step 0 s)))"

text \<open>\<open>bail3\<close>: \<open>while (--n >= 0) __remove_wsi_socket_from_fds(lsp->stdwsi[n])\<close>.\<close>

fun bail3_loop :: "nat \<Rightarrow> sys \<Rightarrow> sys option" where
  "bail3_loop 0 s = Some s"
| "bail3_loop (Suc n) s =
     (case stdwsi (s_lsp s) n of
        None \<Rightarrow> None
      | Some r \<Rightarrow> bail3_loop n (on_ctx (remove_wsi_socket_from_fds r) s))"

definition bail3 :: "nat \<Rightarrow> sys \<Rightarrow> outcome \<times> sys" where
  "bail3 n s = (case bail3_loop n s of None \<Rightarrow> (NullDeref, s) | Some s' \<Rightarrow> bail2 s')"

text \<open>The first loops: mark all six descriptors invalid, then create the three pipes.\<close>

definition init_pipe_fds :: "sys \<Rightarrow> sys" where
  "init_pipe_fds s = on_lsp (\<lambda>l. l\<lparr>pipe_fds :=
       (pipe_fds l)(0 := (-1, -1), 1 := (-1, -1), 2 := (-1, -1))\<rparr>) s"

fun create_pipes :: "decisions \<Rightarrow> nat list \<Rightarrow> sys \<Rightarrow> bool \<times> sys" where
  "create_pipes orc [] s = (True, s)"
| "create_pipes orc (n # ns) s =
     (case pipe (pipe_ok orc n) (s_os s) of
        (None, w) \<Rightarrow> (False, s\<lparr>s_os := w\<rparr>)
      | (Some fds, w) \<Rightarrow>
          create_pipes orc ns
            (on_lsp (\<lambda>l. l\<lparr>pipe_fds := (pipe_fds l)(n := fds)\<rparr>) (s\<lparr>s_os := w\<rparr>)))"

text \<open>The loop that creates one descriptor per channel and makes its fd non-blocking.\<close>

definition role_ops_of :: "lws_spawn_piped \<Rightarrow> string" where
  "role_ops_of lsp = (case ops lsp of Some x \<Rightarrow> x | None \<Rightarrow> ''role_ops_raw_file'')"

fun create_wsis :: "spawn_args \<Rightarrow> decisions \<Rightarrow> lws_protocols \<Rightarrow> nat list \<Rightarrow> sys \<Rightarrow> bool \<times> sys" where
  "create_wsis a orc pcol [] s = (True, s)"
| "create_wsis a orc pcol (n # ns) s =
     (case lws_create_basic_wsi (s_ctx s) (tsi a) (role_ops_of (s_lsp s)) (zalloc_ok orc n) of
        (Inl why, c) \<Rightarrow>
          (False,
           on_os (lwsl ''unable to create lsp stdwsi'')
             (on_os (emit (EvCreateFail why))
                (on_lsp (\<lambda>l. l\<lparr>stdwsi := (stdwsi l)(n := None)\<rparr>) (s\<lparr>s_ctx := c\<rparr>))))
      | (Inr r, c) \<Rightarrow>
          (let fd = retained (s_lsp s) n;
               c1 = wsi_upd r (\<lambda>x. x\<lparr>lsp_channel := int n\<rparr>) c;
               c2 = lws_vhost_bind_wsi (vh a) r c1;
               c3 = wsi_upd r (\<lambda>x. x\<lparr>wsi_protocol := Some pcol\<rparr>) c2;
               c4 = wsi_upd r (\<lambda>x. x\<lparr>desc_sockfd := fd\<rparr>) c3;
               s1 = on_os (emit (EvFcntl fd))
                      (on_lsp (\<lambda>l. l\<lparr>stdwsi := (stdwsi l)(n := Some r)\<rparr>) (s\<lparr>s_ctx := c4\<rparr>))
           in if \<not> fcntl_ok orc n
              then (False, on_os (lwsl ''setting NONBLOCK failed'') s1)
              else create_wsis a orc pcol ns s1))"

text \<open>The loop that registers the three descriptors with the reactor.\<close>

definition link_parent :: "nat option \<Rightarrow> nat \<Rightarrow> lws_context \<Rightarrow> lws_context" where
  "link_parent op r c =
     (case op of
        None \<Rightarrow> c
      | Some p \<Rightarrow>
          (let sib = (case wsis c p of None \<Rightarrow> None | Some pw \<Rightarrow> child_list pw);
               c1 = wsi_upd r (\<lambda>x. x\<lparr>wsi_parent := Some p, sibling_list := sib\<rparr>) c
           in wsi_upd p (\<lambda>x. x\<lparr>child_list := Some r\<rparr>) c1))"

fun register_wsis :: "spawn_args \<Rightarrow> decisions \<Rightarrow> nat list \<Rightarrow> sys \<Rightarrow> goto \<times> sys" where
  "register_wsis a orc [] s = (Done, s)"
| "register_wsis a orc (n # ns) s =
     (case stdwsi (s_lsp s) n of
        None \<Rightarrow> (Null, s)
      | Some r \<Rightarrow>
          if (case sock_accept orc of None \<Rightarrow> False | Some rejects \<Rightarrow> rejects n)
          then (Bail3 n, s)
          else if \<not> insert_ok orc n then (Bail3 n, s)
          else register_wsis a orc ns
                 (on_ctx (link_parent (opt_parent a) r) (on_ctx (insert_wsi_socket_into_fds r) s)))"


text \<open>Arming the poll interest: write-readiness for stdin, read-readiness for the others.\<close>

definition arm_one :: "decisions \<Rightarrow> nat \<Rightarrow> bool \<times> bool \<Rightarrow> bool \<times> bool \<Rightarrow> sys \<Rightarrow> goto \<times> sys" where
  "arm_one orc ch and' or' s =
     (case stdwsi (s_lsp s) ch of
        None \<Rightarrow> (Null, s)
      | Some r \<Rightarrow>
          if \<not> change_pollfd_ok orc ch then (Bail3 3, s)
          else (Done, on_ctx (lws_change_pollfd r and' or') s))"

definition arm_pollfd :: "decisions \<Rightarrow> sys \<Rightarrow> goto \<times> sys" where
  "arm_pollfd orc s =
     (case arm_one orc 0 LWS_POLLIN LWS_POLLOUT s of
        (Done, s1) \<Rightarrow>
          (case arm_one orc 1 LWS_POLLOUT LWS_POLLIN s1 of
             (Done, s2) \<Rightarrow> arm_one orc 2 LWS_POLLOUT LWS_POLLIN s2
           | other \<Rightarrow> other)
      | other \<Rightarrow> other)"

text \<open>The parent branch after the duplication.\<close>

definition parent_step :: "nat \<Rightarrow> sys \<Rightarrow> sys" where
  "parent_step n s =
     on_os (close_fd (other_half (s_lsp s) n))
       (on_os (emit (EvCloexec (retained (s_lsp s) n))) s)"

definition parent_branch :: "spawn_args \<Rightarrow> sys \<Rightarrow> outcome \<times> sys" where
  "parent_branch a s =
     (let s1 = parent_step 2 (parent_step 1 (parent_step 0 s));
          s2 = (case owner a of None \<Rightarrow> s1 | Some ow \<Rightarrow> on_lsp (lws_dll2_add_head ow) s1);
          s3 = (if timeout a \<noteq> 0
                then on_lsp (lws_sul_schedule (timeout_cb a) (timeout a)) s2 else s2)
      in (Returned 0, s3))"

text \<open>The child branch: redirect 0/1/2, apply the environment, replace the program.\<close>

fun child_dup2 :: "decisions \<Rightarrow> nat list \<Rightarrow> sys \<Rightarrow> bool \<times> sys" where
  "child_dup2 orc [] s = (True, s)"
| "child_dup2 orc (m # ms) s =
     (case dup2 (dup2_ok orc m) (other_half (s_lsp s) m) (int m) (s_os s) of
        (r, w) \<Rightarrow>
          if r < 0 then (False, on_os (lwsl ''stdin dup2 failed'') (s\<lparr>s_os := w\<rparr>))
          else child_dup2 orc ms
                 (on_os (close_fd (snd (pipe_fds (s_lsp s) m)))
                    (on_os (close_fd (fst (pipe_fds (s_lsp s) m))) (s\<lparr>s_os := w\<rparr>))))"

text \<open>
  \<open>for (m = 0; m < n; m++) { p = strchr(env_array[m], '='); *p++ = '\0';
  setenv(env_array[m], p, 1); }\<close> over the indices \<open>ms\<close>.  \<open>env_array\<close> is the
  null-terminated array; reading the terminator or beyond it has no result.
\<close>

fun setenv_loop :: "string list \<Rightarrow> nat list \<Rightarrow> os \<Rightarrow> os option" where
  "setenv_loop env [] w = Some w"
| "setenv_loop env (m # ms) w =
     (if m < length env then
        (case split_eq (env ! m) of
           None \<Rightarrow> None
         | Some (k, v) \<Rightarrow> setenv_loop env ms (setenv k v w))
      else None)"

definition env_strings :: "(string \<times> string) list \<Rightarrow> string list" where
  "env_strings kvs = map (\<lambda>(k, v). k @ ''='' @ v) kvs"

definition exec_or_exit :: "decisions \<Rightarrow> spawn_args \<Rightarrow> string list \<Rightarrow> sys \<Rightarrow> outcome \<times> sys" where
  "exec_or_exit orc a env s =
     (case exec_array a of
        [] \<Rightarrow> (Exited 1, on_os (emit EvExec) s)
      | path # _ \<Rightarrow>
          if exec_ok orc then (Execed path (exec_array a) env, on_os (emit EvExec) s)
          else (Exited 1, on_os (emit EvExec) s))"

definition child_branch :: "build \<Rightarrow> spawn_args \<Rightarrow> decisions \<Rightarrow> nat \<Rightarrow> sys \<Rightarrow> outcome \<times> sys" where
  "child_branch b a orc n s =
     (case child_dup2 orc [0, 1, 2] (on_os (chdir_tmp (chdir_ok orc)) s) of
        (False, s1) \<Rightarrow> bail3 n s1
      | (True, s1) \<Rightarrow>
          if \<not> have_vfork_execvpe b then
            (case setenv_loop (env_array a) [0..<n] (s_os s1) of
               None \<Rightarrow> (NullDeref, s1)
             | Some w \<Rightarrow> exec_or_exit orc a (env_strings (environ w)) (s1\<lparr>s_os := w\<rparr>))
          else exec_or_exit orc a (env_array a) s1)"

text \<open>From the duplication on; \<open>n\<close> is the value the loop counter has at that point.\<close>

definition spawn_fork :: "build \<Rightarrow> spawn_args \<Rightarrow> decisions \<Rightarrow> nat \<Rightarrow> sys \<Rightarrow> outcome \<times> sys" where
  "spawn_fork b a orc n s =
     (let s1 = on_lsp (\<lambda>l. l\<lparr>child_pid := fork_result orc\<rparr>)
                 (on_os (fork (fork_result orc) (fork_new_pid orc)) s)
      in if child_pid (s_lsp s1) < 0 then bail3 n (on_os (lwsl ''fork failed'') s1)
         else
           (let s2 = (if is_linux b then on_os prctl_pdeathsig s1 else s1);
                s3 = (if do_setpgrp (s_lsp s2) then on_os setpgrp s2 else s2)
            in if child_pid (s_lsp s3) \<noteq> 0 then parent_branch a s3
               else child_branch b a orc n s3))"

definition default_protocol :: "lws_vhost \<Rightarrow> lws_protocols option" where
  "default_protocol v = (case protocols v of [] \<Rightarrow> None | p # _ \<Rightarrow> Some p)"

text \<open>
  Everything up to the duplication: either the call has already ended (\<open>Inl\<close>), or the
  pipes, descriptors and registrations are in place (\<open>Inr\<close>).
\<close>

definition spawn_prepare :: "spawn_args \<Rightarrow> decisions \<Rightarrow> sys \<Rightarrow> (outcome \<times> sys) + sys" where
  "spawn_prepare a orc s =
     (case vhost_list (s_ctx s) of
        [] \<Rightarrow> Inl (NullDeref, s)
      | v0 # _ \<Rightarrow>
          (case (case pcon a of
                   None \<Rightarrow> default_protocol v0
                 | Some name \<Rightarrow> lws_vhost_name_to_protocol (vh a) name) of
             None \<Rightarrow> Inl (Returned (-1), on_os (lwsl ''unknown protocol'') s)
           | Some pcol \<Rightarrow>
               (case create_pipes orc [0, 1, 2] (init_pipe_fds s) of
                  (False, s1) \<Rightarrow> Inl (bail1 s1)
                | (True, s1) \<Rightarrow>
                    (case create_wsis a orc pcol [0, 1, 2] s1 of
                       (False, s2) \<Rightarrow> Inl (bail2 s2)
                     | (True, s2) \<Rightarrow>
                         (case register_wsis a orc [0, 1, 2] s2 of
                            (Null, s3) \<Rightarrow> Inl (NullDeref, s3)
                          | (Bail3 n, s3) \<Rightarrow> Inl (bail3 n s3)
                          | (Done, s3) \<Rightarrow>
                              (case arm_pollfd orc s3 of
                                 (Null, s4) \<Rightarrow> Inl (NullDeref, s4)
                               | (Bail3 n, s4) \<Rightarrow> Inl (bail3 n s4)
                               | (Done, s4) \<Rightarrow> Inr s4))))))"

definition lws_spawn_piped :: "build \<Rightarrow> spawn_args \<Rightarrow> decisions \<Rightarrow> sys \<Rightarrow> outcome \<times> sys" where
  "lws_spawn_piped b a orc s =
     (case spawn_prepare a orc s of
        Inl r \<Rightarrow> r
      | Inr s4 \<Rightarrow> spawn_fork b a orc 3 s4)"

section \<open>Observations on the trace\<close>


fun kills_of :: "event list \<Rightarrow> (int \<times> signal) list" where
  "kills_of [] = []"
| "kills_of (EvKill t s # es) = (t, s) # kills_of es"
| "kills_of (_ # es) = kills_of es"

fun waits_of :: "event list \<Rightarrow> (int \<times> int) list" where
  "waits_of [] = []"
| "waits_of (EvWaitpid p n # es) = (p, n) # waits_of es"
| "waits_of (_ # es) = waits_of es"

definition escalation :: "(int \<Rightarrow> signal \<Rightarrow> bool) \<Rightarrow> int \<Rightarrow> (int \<times> signal) list" where
  "escalation ok pid =
     (if ok (- pid) SIGTERM then [(- pid, SIGTERM)]
      else if ok pid SIGTERM then [(- pid, SIGTERM), (pid, SIGTERM)]
      else if ok pid SIGPIPE then [(- pid, SIGTERM), (pid, SIGTERM), (pid, SIGPIPE)]
      else [(- pid, SIGTERM), (pid, SIGTERM), (pid, SIGPIPE), (pid, SIGKILL)])"

definition reaps :: "(int \<times> int) list \<Rightarrow> nat" where
  "reaps ws = length (filter (\<lambda>(p, n). n > 0) ws)"

fun reap_is_last :: "(int \<times> int) list \<Rightarrow> bool" where
  "reap_is_last [] = True"
| "reap_is_last ((p, n) # rest) = (if n > 0 then rest = [] else reap_is_last rest)"

fun closes_of :: "event list \<Rightarrow> int list" where
  "closes_of [] = []"
| "closes_of (EvClose fd # es) = fd # closes_of es"
| "closes_of (EvCloseBad fd # es) = fd # closes_of es"
| "closes_of (_ # es) = closes_of es"

fun pipes_of :: "event list \<Rightarrow> (int \<times> int) list" where
  "pipes_of [] = []"
| "pipes_of (EvPipe r wr # es) = (r, wr) # pipes_of es"
| "pipes_of (_ # es) = pipes_of es"

fun bad_closes_of :: "event list \<Rightarrow> int list" where
  "bad_closes_of [] = []"
| "bad_closes_of (EvCloseBad fd # es) = fd # bad_closes_of es"
| "bad_closes_of (_ # es) = bad_closes_of es"

fun create_fails_of :: "event list \<Rightarrow> create_fail list" where
  "create_fails_of [] = []"
| "create_fails_of (EvCreateFail why # es) = why # create_fails_of es"
| "create_fails_of (_ # es) = create_fails_of es"

definition os_frame :: "os \<Rightarrow> os \<Rightarrow> bool" where
  "os_frame w w' \<longleftrightarrow>
     children w' = children w \<and> kill_ok w' = kill_ok w \<and> self_pid w' = self_pid w \<and>
     self_pgid w' = self_pgid w \<and> self_pdeathsig w' = self_pdeathsig w \<and>
     cwd w' = cwd w \<and> environ w' = environ w"

definition lsp_frame :: "lws_spawn_piped \<Rightarrow> lws_spawn_piped \<Rightarrow> bool" where
  "lsp_frame l l' \<longleftrightarrow>
     child_pid l' = child_pid l \<and> do_setpgrp l' = do_setpgrp l \<and> ops l' = ops l \<and>
     dll_owner l' = dll_owner l \<and> sul_scheduled l' = sul_scheduled l"

definition prep_frame :: "sys \<Rightarrow> sys \<Rightarrow> bool" where
  "prep_frame s s' \<longleftrightarrow>
     lsp_frame (s_lsp s) (s_lsp s') \<and> os_frame (s_os s) (s_os s') \<and>
     vhost_list (s_ctx s') = vhost_list (s_ctx s) \<and>
     (vhost_list (s_ctx s) \<noteq> [] \<longrightarrow>
        (NoVhost \<in> set (create_fails_of (trace (s_os s')))) =
        (NoVhost \<in> set (create_fails_of (trace (s_os s)))))"

definition accepts :: "decisions \<Rightarrow> nat \<Rightarrow> bool" where
  "accepts orc n = (case sock_accept orc of None \<Rightarrow> True | Some rejects \<Rightarrow> \<not> rejects n)"

definition prepare_ok :: "decisions \<Rightarrow> bool" where
  "prepare_ok orc = list_all (\<lambda>n. pipe_ok orc n \<and> zalloc_ok orc n \<and> fcntl_ok orc n \<and>
       accepts orc n \<and> insert_ok orc n \<and> change_pollfd_ok orc n) [0, 1, 2]"

definition at_capacity :: "lws_context \<Rightarrow> nat \<Rightarrow> bool" where
  "at_capacity context t =
     ((of_nat (fds_count context t) :: 32 word) = fd_limit_per_thread context - 1)"

definition resolve_protocol :: "spawn_args \<Rightarrow> lws_context \<Rightarrow> lws_protocols option" where
  "resolve_protocol a context =
     (case vhost_list context of
        [] \<Rightarrow> None
      | v0 # _ \<Rightarrow>
          (case pcon a of
             None \<Rightarrow> default_protocol v0
           | Some name \<Rightarrow> lws_vhost_name_to_protocol (vh a) name))"

definition exec_outcome :: "decisions \<Rightarrow> spawn_args \<Rightarrow> string list \<Rightarrow> outcome" where
  "exec_outcome orc a env =
     (case exec_array a of
        [] \<Rightarrow> Exited 1
      | path # _ \<Rightarrow> if exec_ok orc then Execed path (exec_array a) env else Exited 1)"

fun apply_env :: "string list \<Rightarrow> nat list \<Rightarrow> (string \<times> string) list \<Rightarrow> (string \<times> string) list option" where
  "apply_env env [] kvs = Some kvs"
| "apply_env env (m # ms) kvs =
     (if m < length env then
        (case split_eq (env ! m) of
           None \<Rightarrow> None
         | Some (k, v) \<Rightarrow> apply_env env ms (if k = [] then kvs else AList.update k v kvs))
      else None)"

definition child_env_outcome :: "build \<Rightarrow> spawn_args \<Rightarrow> decisions \<Rightarrow> nat \<Rightarrow> (string \<times> string) list \<Rightarrow> outcome" where
  "child_env_outcome b a orc n kvs =
     (if have_vfork_execvpe b then exec_outcome orc a (env_array a)
      else (case apply_env (env_array a) [0..<n] kvs of
              None \<Rightarrow> NullDeref
            | Some e \<Rightarrow> exec_outcome orc a (env_strings e)))"

definition after_fork :: "build \<Rightarrow> decisions \<Rightarrow> sys \<Rightarrow> sys" where
  "after_fork b orc s =
     (let s1 = on_lsp (\<lambda>l. l\<lparr>child_pid := fork_result orc\<rparr>)
                 (on_os (fork (fork_result orc) (fork_new_pid orc)) s);
          s2 = (if is_linux b then on_os prctl_pdeathsig s1 else s1)
      in if do_setpgrp (s_lsp s2) then on_os setpgrp s2 else s2)"











section \<open>Example states\<close>


definition lsp_k :: lws_spawn_piped where
  "lsp_k = \<lparr>pipe_fds = (\<lambda>_. (-1, -1)), stdwsi = (\<lambda>_. None), child_pid = 5,
            do_setpgrp = False, ops = None, dll_owner = None, sul_scheduled = None\<rparr>"

definition os_k :: "child list \<Rightarrow> os" where
  "os_k cs = \<lparr>open_fds = [0, 1, 2], children = cs, clock = 0,
             kill_ok = (\<lambda>t sg. t = 5 \<and> sg = SIGPIPE),
             self_pid = 100, self_pgid = 50, self_pdeathsig = None, cwd = ''/'',
             environ = [], trace = []\<rparr>"

definition live_child :: child where
  "live_child = \<lparr>c_pid = 5, c_pgid = 50, c_exit_at = None\<rparr>"

definition dead_child :: "int \<Rightarrow> child" where
  "dead_child p = \<lparr>c_pid = p, c_pgid = 5, c_exit_at = Some 0\<rparr>"

definition os0 :: os where
  "os0 = \<lparr>open_fds = [0, 1, 2], children = [], clock = 0, kill_ok = (\<lambda>_ _. False),
          self_pid = 100, self_pgid = 50, self_pdeathsig = None, cwd = ''/'',
          environ = [(''PATH'', ''/bin'')], trace = []\<rparr>"

definition vhost0 :: lws_vhost where
  "vhost0 = \<lparr>vh_name = ''default'', protocols = [\<lparr>pr_name = ''http''\<rparr>]\<rparr>"

definition ctx0 :: lws_context where
  "ctx0 = \<lparr>vhost_list = [vhost0], pt_fds = (\<lambda>_. []), fd_limit_per_thread = 10,
           count_wsi_allocated = 0, wsis = (\<lambda>_. None), next_wsi = 0\<rparr>"

definition lsp0 :: lws_spawn_piped where
  "lsp0 = \<lparr>pipe_fds = (\<lambda>_. (-1, -1)), stdwsi = (\<lambda>_. None), child_pid = 0,
           do_setpgrp = True, ops = None, dll_owner = None, sul_scheduled = None\<rparr>"

definition sys0 :: sys where
  "sys0 = \<lparr>s_lsp = lsp0, s_ctx = ctx0, s_os = os0\<rparr>"

definition args0 :: spawn_args where
  "args0 = \<lparr>owner = None, vh = vhost0, tsi = 0, opt_parent = None,
            exec_array = [''/bin/cat''], env_array = [''A=1'', ''B=2'', ''C=3'', ''D=4''],
            pcon = None, timeout = 0, timeout_cb = ''cb''\<rparr>"

definition orc0 :: decisions where
  "orc0 = \<lparr>pipe_ok = (\<lambda>_. True), zalloc_ok = (\<lambda>_. True), fcntl_ok = (\<lambda>_. True),
           sock_accept = None, insert_ok = (\<lambda>_. True), change_pollfd_ok = (\<lambda>_. True),
           fork_result = 42, fork_new_pid = 42, chdir_ok = True, dup2_ok = (\<lambda>_. True),
           exec_ok = True\<rparr>"

definition bld_fork :: build where
  "bld_fork = \<lparr>have_vfork_execvpe = False, is_linux = True\<rparr>"

definition bld_vfork :: build where
  "bld_vfork = \<lparr>have_vfork_execvpe = True, is_linux = True\<rparr>"

definition sys_full :: sys where
  "sys_full = sys0\<lparr>s_ctx := ctx0\<lparr>fd_limit_per_thread := 1\<rparr>\<rparr>"


section \<open>Properties of the lifecycle manager\<close>


lemma kills_of_append: "kills_of (xs @ ys) = kills_of xs @ kills_of ys"
  by (induction xs rule: kills_of.induct) simp_all

lemma waits_of_append: "waits_of (xs @ ys) = waits_of xs @ waits_of ys"
  by (induction xs rule: waits_of.induct) simp_all

lemma waitpid_kills:
  "waitpid_nohang p w = (n, w') \<Longrightarrow> kills_of (trace w') = kills_of (trace w)"
  by (auto simp: waitpid_nohang_def emit_def kills_of_append split: list.splits)

lemma waitpid_kill_ok:
  "waitpid_nohang p w = (n, w') \<Longrightarrow> kill_ok w' = kill_ok w"
  by (auto simp: waitpid_nohang_def emit_def split: list.splits)

lemma drain_loop_kills: "kills_of (trace (drain_loop pid w)) = kills_of (trace w)"
proof (induction pid w rule: drain_loop.induct)
  case (1 pid w)
  obtain n w1 where a: "waitpid_nohang (- pid) w = (n, w1)" by force
  obtain n2 w2 where b: "waitpid_nohang pid w1 = (n2, w2)" by force
  show ?case
    using 1 a b waitpid_kills [OF a] waitpid_kills [OF b]
    by (subst drain_loop.simps) auto
qed

lemma escalate_kills:
  "kills_of (trace (escalate pid w)) = kills_of (trace w) @ escalation (kill_ok w) pid"
  by (simp add: escalate_def escalation_def kill_def emit_def lwsl_def kills_of_append)

lemma waitpid_waits:
  "waitpid_nohang p w = (n, w') \<Longrightarrow> waits_of (trace w') = waits_of (trace w) @ [(p, n)]"
  by (auto simp: waitpid_nohang_def emit_def waits_of_append split: list.splits)

lemma drain_loop_waits:
  "\<exists>ws a b. waits_of (trace (drain_loop pid w)) = waits_of (trace w) @ ws @ [(- pid, a), (pid, b)]
      \<and> a \<le> 0 \<and> b \<le> 0 \<and> length ws \<le> 2 * reaps ws
      \<and> reaps ws + length (children (drain_loop pid w)) \<le> length (children w)"
proof (induction pid w rule: drain_loop.induct)
  case (1 pid w)
  obtain n w1 where a: "waitpid_nohang (- pid) w = (n, w1)" by force
  obtain n2 w2 where b: "waitpid_nohang pid w1 = (n2, w2)" by force
  note wa = waitpid_waits [OF a] and wb = waitpid_waits [OF b]
  show ?case
  proof (cases "n > 0")
    case True
    then have eq: "drain_loop pid w = drain_loop pid w1"
      using a by (subst drain_loop.simps) simp
    from 1(1) [OF a [symmetric] True] obtain ws x y where
      ih: "waits_of (trace (drain_loop pid w1)) = waits_of (trace w1) @ ws @ [(- pid, x), (pid, y)]"
        "x \<le> 0" "y \<le> 0" "length ws \<le> 2 * reaps ws"
        "reaps ws + length (children (drain_loop pid w1)) \<le> length (children w1)"
      by blast
    have "waits_of (trace (drain_loop pid w)) =
        waits_of (trace w) @ ((- pid, n) # ws) @ [(- pid, x), (pid, y)]"
      using eq ih(1) wa by simp
    moreover have "length ((- pid, n) # ws) \<le> 2 * reaps ((- pid, n) # ws)"
      using ih(4) True by (simp add: reaps_def)
    moreover have "reaps ((- pid, n) # ws) + length (children (drain_loop pid w))
        \<le> length (children w)"
      using ih(5) True eq waitpid_reaps_shrinks [OF a True] by (simp add: reaps_def)
    ultimately show ?thesis using ih(2,3) by blast
  next
    case False
    show ?thesis
    proof (cases "n2 > 0")
      case True
      then have eq: "drain_loop pid w = drain_loop pid w2"
        using a b False by (subst drain_loop.simps) simp
      from 1(2) [OF a [symmetric] False b [symmetric] True] obtain ws x y where
        ih: "waits_of (trace (drain_loop pid w2)) = waits_of (trace w2) @ ws @ [(- pid, x), (pid, y)]"
          "x \<le> 0" "y \<le> 0" "length ws \<le> 2 * reaps ws"
          "reaps ws + length (children (drain_loop pid w2)) \<le> length (children w2)"
        by blast
      have "waits_of (trace (drain_loop pid w)) =
          waits_of (trace w) @ ((- pid, n) # (pid, n2) # ws) @ [(- pid, x), (pid, y)]"
        using eq ih(1) wa wb by simp
      moreover have "length ((- pid, n) # (pid, n2) # ws) \<le> 2 * reaps ((- pid, n) # (pid, n2) # ws)"
        using ih(4) True by (simp add: reaps_def)
      moreover have "reaps ((- pid, n) # (pid, n2) # ws) + length (children (drain_loop pid w))
          \<le> length (children w)"
        using ih(5) True False eq waitpid_reaps_shrinks [OF b True] waitpid_no_growth [OF a]
        by (simp add: reaps_def)
      ultimately show ?thesis using ih(2,3) by blast
    next
      case n2: False
      then have eq: "drain_loop pid w = w2"
        using a b False by (subst drain_loop.simps) simp
      have "waits_of (trace (drain_loop pid w)) = waits_of (trace w) @ [] @ [(- pid, n), (pid, n2)]"
        using eq wa wb by simp
      moreover have "reaps [] + length (children (drain_loop pid w)) \<le> length (children w)"
        using eq waitpid_no_growth [OF a] waitpid_no_growth [OF b] by (simp add: reaps_def)
      moreover have "length ([] :: (int \<times> int) list) \<le> 2 * reaps []" by simp
      ultimately show ?thesis using False n2 by (metis not_less)
    qed
  qed
qed

lemma waitpid_trace_grows:
  "waitpid_nohang p w = (n, w') \<Longrightarrow> set (trace w) \<subseteq> set (trace w')"
  by (auto simp: waitpid_nohang_def emit_def split: list.splits)

lemma drain_loop_trace_grows: "set (trace w) \<subseteq> set (trace (drain_loop pid w))"
proof (induction pid w rule: drain_loop.induct)
  case (1 pid w)
  obtain n w1 where a: "waitpid_nohang (- pid) w = (n, w1)" by force
  obtain n2 w2 where b: "waitpid_nohang pid w1 = (n2, w2)" by force
  show ?case
    using 1 a b waitpid_trace_grows [OF a] waitpid_trace_grows [OF b]
    by (subst drain_loop.simps) (auto, blast+)
qed

lemma escalate_logs_total_failure:
  "\<not> kill_ok w (- pid) SIGTERM \<Longrightarrow> \<not> kill_ok w pid SIGTERM \<Longrightarrow>
   \<not> kill_ok w pid SIGPIPE \<Longrightarrow> \<not> kill_ok w pid SIGKILL \<Longrightarrow>
   EvLog ''SIGKILL failed (maybe zombie)'' \<in> set (trace (escalate pid w))"
  by (simp add: escalate_def kill_def emit_def lwsl_def)

text \<open>
  C5.  When the tracked pid is positive and the first non-blocking wait does not reap
  the child, the signals go out in the fixed order: SIGTERM to the negated pid, and
  only after a failed send SIGTERM to the pid itself, then SIGPIPE, then SIGKILL.  A
  failing SIGKILL is logged.  Whatever the sends return, the call returns 0 and
  leaves \<open>child_pid = -1\<close>.
\<close>

theorem kill_child_escalation_order:
  assumes "child_pid lsp > 0"
    and "fst (waitpid_nohang (child_pid lsp) w) \<le> 0"
  shows "fst (lws_spawn_piped_kill_child_process lsp w) = 0 \<and>
         child_pid (fst (snd (lws_spawn_piped_kill_child_process lsp w))) = -1 \<and>
         kills_of (trace (snd (snd (lws_spawn_piped_kill_child_process lsp w)))) =
           kills_of (trace w) @ escalation (kill_ok w) (child_pid lsp) \<and>
         (escalation (kill_ok w) (child_pid lsp) = 
             [(- child_pid lsp, SIGTERM), (child_pid lsp, SIGTERM),
              (child_pid lsp, SIGPIPE), (child_pid lsp, SIGKILL)] \<and>
          \<not> kill_ok w (child_pid lsp) SIGKILL \<longrightarrow>
            EvLog ''SIGKILL failed (maybe zombie)''
              \<in> set (trace (snd (snd (lws_spawn_piped_kill_child_process lsp w)))))"
proof -
  obtain n w1 where a: "waitpid_nohang (child_pid lsp) w = (n, w1)" by force
  with assms have n: "\<not> n > 0" by simp
  have res: "lws_spawn_piped_kill_child_process lsp w =
      (0, lsp\<lparr>child_pid := -1\<rparr>, drain_loop (child_pid lsp) (escalate (child_pid lsp) w1))"
    using assms(1) a n by (simp add: lws_spawn_piped_kill_child_process_def)
  have k: "kill_ok w1 = kill_ok w" using a by (rule waitpid_kill_ok)
  have "kills_of (trace (drain_loop (child_pid lsp) (escalate (child_pid lsp) w1))) =
      kills_of (trace w) @ escalation (kill_ok w) (child_pid lsp)"
    using waitpid_kills [OF a] k by (simp add: drain_loop_kills escalate_kills)
  moreover have "EvLog ''SIGKILL failed (maybe zombie)''
      \<in> set (trace (drain_loop (child_pid lsp) (escalate (child_pid lsp) w1)))"
    if "escalation (kill_ok w) (child_pid lsp) =
          [(- child_pid lsp, SIGTERM), (child_pid lsp, SIGTERM),
           (child_pid lsp, SIGPIPE), (child_pid lsp, SIGKILL)]"
      and "\<not> kill_ok w (child_pid lsp) SIGKILL"
  proof -
    from that have "\<not> kill_ok w1 (- child_pid lsp) SIGTERM" "\<not> kill_ok w1 (child_pid lsp) SIGTERM"
      "\<not> kill_ok w1 (child_pid lsp) SIGPIPE" "\<not> kill_ok w1 (child_pid lsp) SIGKILL"
      unfolding k by (auto simp: escalation_def split: if_splits)
    then have "EvLog ''SIGKILL failed (maybe zombie)'' \<in> set (trace (escalate (child_pid lsp) w1))"
      by (rule escalate_logs_total_failure)
    then show ?thesis using drain_loop_trace_grows by blast
  qed
  ultimately show ?thesis using res by simp
qed

theorem kill_child_escalation_order_witness:
  "child_pid lsp_k > 0 \<and> fst (waitpid_nohang (child_pid lsp_k) (os_k [live_child])) \<le> 0 \<and>
   fst (lws_spawn_piped_kill_child_process lsp_k (os_k [live_child])) = 0 \<and>
   child_pid (fst (snd (lws_spawn_piped_kill_child_process lsp_k (os_k [live_child])))) = -1 \<and>
   kills_of (trace (snd (snd (lws_spawn_piped_kill_child_process lsp_k (os_k [live_child]))))) =
     [(-5, SIGTERM), (5, SIGTERM), (5, SIGPIPE)] \<and>
   fst (lws_spawn_piped_kill_child_process lsp_k ((os_k [live_child])\<lparr>kill_ok := (\<lambda>_ _. False)\<rparr>)) = 0 \<and>
   kills_of (trace (snd (snd (lws_spawn_piped_kill_child_process lsp_k
       ((os_k [live_child])\<lparr>kill_ok := (\<lambda>_ _. False)\<rparr>))))) =
     [(-5, SIGTERM), (5, SIGTERM), (5, SIGPIPE), (5, SIGKILL)] \<and>
   EvLog ''SIGKILL failed (maybe zombie)''
     \<in> set (trace (snd (snd (lws_spawn_piped_kill_child_process lsp_k
       ((os_k [live_child])\<lparr>kill_ok := (\<lambda>_ _. False)\<rparr>)))))"
proof -
  let ?w = "(os_k [live_child])\<lparr>kill_ok := (\<lambda>_ _. False)\<rparr>"
  have h1: "child_pid lsp_k > 0" by (simp add: lsp_k_def)
  have h2: "fst (waitpid_nohang (child_pid lsp_k) (os_k [live_child])) \<le> 0"
    by (simp add: lsp_k_def os_k_def live_child_def waitpid_nohang_def wait_selects_def
        has_exited_def)
  have h3: "fst (waitpid_nohang (child_pid lsp_k) ?w) \<le> 0"
    by (simp add: lsp_k_def os_k_def live_child_def waitpid_nohang_def wait_selects_def
        has_exited_def)
  have e: "escalation (kill_ok ?w) (child_pid lsp_k) =
      [(- child_pid lsp_k, SIGTERM), (child_pid lsp_k, SIGTERM),
       (child_pid lsp_k, SIGPIPE), (child_pid lsp_k, SIGKILL)]"
    "\<not> kill_ok ?w (child_pid lsp_k) SIGKILL" "kills_of (trace ?w) = []"
    by (simp_all add: escalation_def os_k_def)
  note A = kill_child_escalation_order [OF h1 h2]
  note B = kill_child_escalation_order [OF h1 h3]
  have B1: "fst (lws_spawn_piped_kill_child_process lsp_k ?w) = 0"
    using B by blast
  have B2: "kills_of (trace (snd (snd (lws_spawn_piped_kill_child_process lsp_k ?w)))) =
     [(-5, SIGTERM), (5, SIGTERM), (5, SIGPIPE), (5, SIGKILL)]"
    using B [THEN conjunct2, THEN conjunct2, THEN conjunct1] e by (simp add: lsp_k_def)
  have B3: "EvLog ''SIGKILL failed (maybe zombie)''
     \<in> set (trace (snd (snd (lws_spawn_piped_kill_child_process lsp_k ?w))))"
    using B [THEN conjunct2, THEN conjunct2, THEN conjunct2] e(1,2) by blast
  have A': "fst (lws_spawn_piped_kill_child_process lsp_k (os_k [live_child])) = 0 \<and>
   child_pid (fst (snd (lws_spawn_piped_kill_child_process lsp_k (os_k [live_child])))) = -1 \<and>
   kills_of (trace (snd (snd (lws_spawn_piped_kill_child_process lsp_k (os_k [live_child]))))) =
     [(-5, SIGTERM), (5, SIGTERM), (5, SIGPIPE)]"
    using A by (simp add: escalation_def os_k_def lsp_k_def)
  show ?thesis using h1 h2 A' B1 B2 B3 by blast
qed

text \<open>
  C7.  With \<open>child_pid \<le> 0\<close> the call returns 1 and changes nothing; when the first
  non-blocking wait reaps the child, the call marks the handle reaped, makes no
  further system call and in particular sends no signal.
\<close>

theorem kill_child_no_signal_when_reaped:
  "(child_pid lsp \<le> 0 \<longrightarrow> lws_spawn_piped_kill_child_process lsp w = (1, lsp, w)) \<and>
   (child_pid lsp > 0 \<and> fst (waitpid_nohang (child_pid lsp) w) > 0 \<longrightarrow>
      lws_spawn_piped_kill_child_process lsp w =
        (0, lsp\<lparr>child_pid := -1\<rparr>, snd (waitpid_nohang (child_pid lsp) w)) \<and>
      kills_of (trace (snd (snd (lws_spawn_piped_kill_child_process lsp w)))) = kills_of (trace w) \<and>
      waits_of (trace (snd (snd (lws_spawn_piped_kill_child_process lsp w)))) =
        waits_of (trace w) @ [(child_pid lsp, fst (waitpid_nohang (child_pid lsp) w))])"
proof -
  obtain n w1 where a: "waitpid_nohang (child_pid lsp) w = (n, w1)" by force
  show ?thesis
    using a waitpid_kills [OF a] waitpid_waits [OF a]
    by (simp add: lws_spawn_piped_kill_child_process_def)
qed

theorem kill_child_no_signal_when_reaped_witness:
  "child_pid (lsp_k\<lparr>child_pid := 0\<rparr>) \<le> 0 \<and>
   lws_spawn_piped_kill_child_process (lsp_k\<lparr>child_pid := 0\<rparr>) (os_k [live_child]) =
     (1, lsp_k\<lparr>child_pid := 0\<rparr>, os_k [live_child]) \<and>
   child_pid lsp_k > 0 \<and> fst (waitpid_nohang (child_pid lsp_k) (os_k [dead_child 5])) > 0 \<and>
   fst (lws_spawn_piped_kill_child_process lsp_k (os_k [dead_child 5])) = 0 \<and>
   kills_of (trace (snd (snd (lws_spawn_piped_kill_child_process lsp_k (os_k [dead_child 5]))))) = [] \<and>
   waits_of (trace (snd (snd (lws_spawn_piped_kill_child_process lsp_k (os_k [dead_child 5]))))) = [(5, 5)]"
proof -
  have h1: "child_pid (lsp_k\<lparr>child_pid := 0\<rparr>) \<le> 0" by simp
  have h2: "child_pid lsp_k > 0" by (simp add: lsp_k_def)
  have h3: "fst (waitpid_nohang (child_pid lsp_k) (os_k [dead_child 5])) = 5"
    by (simp add: lsp_k_def os_k_def dead_child_def waitpid_nohang_def wait_selects_def
        has_exited_def)
  have h3': "fst (waitpid_nohang (child_pid lsp_k) (os_k [dead_child 5])) > 0"
    using h3 by simp
  have t: "kills_of (trace (os_k [dead_child 5])) = []" "waits_of (trace (os_k [dead_child 5])) = []"
    by (simp_all add: os_k_def)
  note A = kill_child_no_signal_when_reaped [of "lsp_k\<lparr>child_pid := 0\<rparr>" "os_k [live_child]",
      THEN conjunct1, rule_format, OF h1]
  note B = kill_child_no_signal_when_reaped [of lsp_k "os_k [dead_child 5]",
      THEN conjunct2, rule_format, OF conjI [OF h2 h3']]
  have B1: "fst (lws_spawn_piped_kill_child_process lsp_k (os_k [dead_child 5])) = 0"
    using B [THEN conjunct1] by simp
  have B2: "kills_of (trace (snd (snd (lws_spawn_piped_kill_child_process lsp_k (os_k [dead_child 5]))))) = []"
    using B [THEN conjunct2, THEN conjunct1] t by simp
  have B3: "waits_of (trace (snd (snd (lws_spawn_piped_kill_child_process lsp_k (os_k [dead_child 5]))))) = [(5, 5)]"
    using B [THEN conjunct2, THEN conjunct2] t h3 by (simp add: lsp_k_def)
  show ?thesis
    using h1 h2 h3' A B1 B2 B3 by blast
qed

text \<open>
  C6, as stated, fails: the drain loop does not stop at the first wait that reports a
  reaped child.  With two exited children in the group it reaps the first, goes
  round again, reaps the second, and stops only after both waits of one pass came
  back without a child.
\<close>

theorem drain_loop_continues_after_reap:
  "waits_of (trace (drain_loop 5 (os_k [dead_child 5, dead_child 6]))) =
     [(-5, 5), (-5, 6), (-5, -1), (5, -1)] \<and>
   \<not> reap_is_last (waits_of (trace (drain_loop 5 (os_k [dead_child 5, dead_child 6]))))"
proof -
  have "waits_of (trace (drain_loop 5 (os_k [dead_child 5, dead_child 6]))) =
     [(-5, 5), (-5, 6), (-5, -1), (5, -1)]"
    by (simp add: drain_loop.simps waitpid_nohang_def os_k_def dead_child_def wait_selects_def
        has_exited_def emit_def)
  then show ?thesis by simp
qed

text \<open>
  C6, amended.  The drain loop is a total function.  It ends with one pass in which
  the wait on the negated pid and the wait on the bare pid both return a value
  \<open>\<le> 0\<close>; every earlier pass contains a wait that reaped a child (so at most two waits
  per reaped child precede the last pass), and no more children are reaped than the
  child table held.  A child that is still running makes both waits return 0 and so
  ends the loop.
\<close>

theorem drain_loop_stops_when_nothing_reaped:
  "\<exists>ws a b.
      waits_of (trace (drain_loop pid w)) = waits_of (trace w) @ ws @ [(- pid, a), (pid, b)]
      \<and> a \<le> 0 \<and> b \<le> 0 \<and> length ws \<le> 2 * reaps ws
      \<and> reaps ws + length (children (drain_loop pid w)) \<le> length (children w)"
  by (rule drain_loop_waits)

section \<open>Properties of the teardown\<close>

lemma closes_of_append: "closes_of (xs @ ys) = closes_of xs @ closes_of ys"
  by (induction xs rule: closes_of.induct) simp_all










section \<open>Frame properties of the launcher phases\<close>

lemma pipes_of_append: "pipes_of (xs @ ys) = pipes_of xs @ pipes_of ys"
  by (induction xs rule: pipes_of.induct) simp_all

lemma bad_closes_of_append: "bad_closes_of (xs @ ys) = bad_closes_of xs @ bad_closes_of ys"
  by (induction xs rule: bad_closes_of.induct) simp_all

lemma create_fails_of_append: "create_fails_of (xs @ ys) = create_fails_of xs @ create_fails_of ys"
  by (induction xs rule: create_fails_of.induct) simp_all

lemmas proj_append = pipes_of_append bad_closes_of_append create_fails_of_append closes_of_append

text \<open>The descriptor-side steps leave the handle's scalar fields and the OS state alone.\<close>

lemma register_wsis_frame:
  "register_wsis a orc ns s = (g, s') \<Longrightarrow>
     s_os s' = s_os s \<and> s_lsp s' = s_lsp s \<and>
     vhost_list (s_ctx s') = vhost_list (s_ctx s) \<and>
     count_wsi_allocated (s_ctx s') = count_wsi_allocated (s_ctx s)"
proof (induction ns arbitrary: s)
  case Nil
  then show ?case by simp
next
  case (Cons n ns)
  show ?case
  proof (cases "stdwsi (s_lsp s) n")
    case None
    with Cons.prems show ?thesis by simp
  next
    case (Some r)
    let ?s1 = "on_ctx (link_parent (opt_parent a) r) (on_ctx (insert_wsi_socket_into_fds r) s)"
    have f: "s_os ?s1 = s_os s \<and> s_lsp ?s1 = s_lsp s \<and>
        vhost_list (s_ctx ?s1) = vhost_list (s_ctx s) \<and>
        count_wsi_allocated (s_ctx ?s1) = count_wsi_allocated (s_ctx s)"
      by (simp add: on_ctx_def link_parent_def insert_wsi_socket_into_fds_def wsi_upd_def Let_def
          split: option.splits)
    show ?thesis
    proof (cases "(case sock_accept orc of None \<Rightarrow> False | Some rejects \<Rightarrow> rejects n) \<or> \<not> insert_ok orc n")
      case True
      with Cons.prems Some show ?thesis by (auto split: if_splits)
    next
      case False
      with Cons.prems Some have "register_wsis a orc ns ?s1 = (g, s')" by (simp split: if_splits)
      from Cons.IH [OF this] f show ?thesis by simp
    qed
  qed
qed

lemma arm_one_frame:
  "arm_one orc ch x y s = (g, s') \<Longrightarrow>
     s_os s' = s_os s \<and> s_lsp s' = s_lsp s \<and>
     vhost_list (s_ctx s') = vhost_list (s_ctx s) \<and>
     count_wsi_allocated (s_ctx s') = count_wsi_allocated (s_ctx s)"
  by (auto simp: arm_one_def on_ctx_def lws_change_pollfd_def wsi_upd_def
      split: option.splits if_splits)

lemma arm_pollfd_frame:
  "arm_pollfd orc s = (g, s') \<Longrightarrow>
     s_os s' = s_os s \<and> s_lsp s' = s_lsp s \<and>
     vhost_list (s_ctx s') = vhost_list (s_ctx s) \<and>
     count_wsi_allocated (s_ctx s') = count_wsi_allocated (s_ctx s)"
proof -
  assume a: "arm_pollfd orc s = (g, s')"
  obtain g0 s0 where a0: "arm_one orc 0 LWS_POLLIN LWS_POLLOUT s = (g0, s0)" by force
  obtain g1 s1 where a1: "arm_one orc 1 LWS_POLLOUT LWS_POLLIN s0 = (g1, s1)" by force
  obtain g2 s2 where a2: "arm_one orc 2 LWS_POLLOUT LWS_POLLIN s1 = (g2, s2)" by force
  note f = arm_one_frame [OF a0] arm_one_frame [OF a1] arm_one_frame [OF a2]
  show ?thesis
    using a a0 a1 a2 f by (cases g0; cases g1) (auto simp: arm_pollfd_def)
qed

lemma bail3_loop_frame:
  "bail3_loop n s = Some s' \<Longrightarrow>
     s_os s' = s_os s \<and> s_lsp s' = s_lsp s \<and>
     vhost_list (s_ctx s') = vhost_list (s_ctx s) \<and>
     count_wsi_allocated (s_ctx s') = count_wsi_allocated (s_ctx s)"
proof (induction n arbitrary: s)
  case 0
  then show ?case by simp
next
  case (Suc n)
  then obtain r where r: "stdwsi (s_lsp s) n = Some r"
    and l: "bail3_loop n (on_ctx (remove_wsi_socket_from_fds r) s) = Some s'"
    by (auto split: option.splits)
  from Suc.IH [OF l] show ?case
    by (simp add: on_ctx_def remove_wsi_socket_from_fds_def wsi_upd_def split: option.splits)
qed

lemma os_frame_refl [simp]: "os_frame w w"
  by (simp add: os_frame_def)

lemma os_frame_trans: "os_frame w w1 \<Longrightarrow> os_frame w1 w2 \<Longrightarrow> os_frame w w2"
  by (simp add: os_frame_def)

lemma lsp_frame_refl [simp]: "lsp_frame l l"
  by (simp add: lsp_frame_def)

lemma lsp_frame_trans: "lsp_frame l l1 \<Longrightarrow> lsp_frame l1 l2 \<Longrightarrow> lsp_frame l l2"
  by (simp add: lsp_frame_def)

lemma create_pipes_frame:
  "create_pipes orc ns s = (ok, s') \<Longrightarrow>
     s_ctx s' = s_ctx s \<and> lsp_frame (s_lsp s) (s_lsp s') \<and> stdwsi (s_lsp s') = stdwsi (s_lsp s) \<and>
     os_frame (s_os s) (s_os s') \<and>
     create_fails_of (trace (s_os s')) = create_fails_of (trace (s_os s))"
proof (induction ns arbitrary: s)
  case Nil
  then show ?case by simp
next
  case (Cons n ns)
  show ?case
  proof (cases "pipe_ok orc n")
    case False
    with Cons.prems show ?thesis
      by (auto simp: pipe_def emit_def os_frame_def proj_append)
  next
    case True
    obtain fds w where p: "pipe True (s_os s) = (Some fds, w)"
      by (simp add: pipe_def Let_def)
    let ?s1 = "on_lsp (\<lambda>l. l\<lparr>pipe_fds := (pipe_fds l)(n := fds)\<rparr>) (s\<lparr>s_os := w\<rparr>)"
    from Cons.prems True p have "create_pipes orc ns ?s1 = (ok, s')" by simp
    note ih = Cons.IH [OF this]
    have w: "os_frame (s_os s) w \<and> create_fails_of (trace w) = create_fails_of (trace (s_os s))"
      using p by (auto simp: pipe_def emit_def os_frame_def proj_append Let_def)
    have "s_ctx ?s1 = s_ctx s" "lsp_frame (s_lsp s) (s_lsp ?s1)" "stdwsi (s_lsp ?s1) = stdwsi (s_lsp s)"
      "s_os ?s1 = w"
      by (simp_all add: on_lsp_def lsp_frame_def)
    with ih w show ?thesis
      by (auto intro: os_frame_trans lsp_frame_trans)
  qed
qed

lemma create_basic_wsi_frame:
  "lws_create_basic_wsi c t ro z = (res, c') \<Longrightarrow>
     vhost_list c' = vhost_list c \<and> fd_limit_per_thread c' = fd_limit_per_thread c \<and>
     pt_fds c' = pt_fds c \<and> (res = Inl NoVhost \<longrightarrow> vhost_list c = [])"
  by (auto simp: lws_create_basic_wsi_def Let_def split: if_splits)

lemma wsi_upd_frame:
  "vhost_list (wsi_upd r f c) = vhost_list c"
  "fd_limit_per_thread (wsi_upd r f c) = fd_limit_per_thread c"
  "pt_fds (wsi_upd r f c) = pt_fds c"
  "count_wsi_allocated (wsi_upd r f c) = count_wsi_allocated c"
  "next_wsi (wsi_upd r f c) = next_wsi c"
  by (simp_all add: wsi_upd_def split: option.splits)

lemma create_wsis_frame:
  "create_wsis a orc pcol ns s = (ok, s') \<Longrightarrow>
     lsp_frame (s_lsp s) (s_lsp s') \<and> pipe_fds (s_lsp s') = pipe_fds (s_lsp s) \<and>
     os_frame (s_os s) (s_os s') \<and> open_fds (s_os s') = open_fds (s_os s) \<and>
     pipes_of (trace (s_os s')) = pipes_of (trace (s_os s)) \<and>
     bad_closes_of (trace (s_os s')) = bad_closes_of (trace (s_os s)) \<and>
     vhost_list (s_ctx s') = vhost_list (s_ctx s) \<and>
     fd_limit_per_thread (s_ctx s') = fd_limit_per_thread (s_ctx s) \<and>
     pt_fds (s_ctx s') = pt_fds (s_ctx s) \<and>
     (vhost_list (s_ctx s) \<noteq> [] \<longrightarrow>
        (NoVhost \<in> set (create_fails_of (trace (s_os s')))) =
        (NoVhost \<in> set (create_fails_of (trace (s_os s)))))"
proof (induction ns arbitrary: s)
  case Nil
  then show ?case by simp
next
  case (Cons n ns)
  obtain res c where cr: "lws_create_basic_wsi (s_ctx s) (tsi a) (role_ops_of (s_lsp s)) (zalloc_ok orc n) = (res, c)"
    by force
  note cf = create_basic_wsi_frame [OF cr]
  show ?case
  proof (cases res)
    case (Inl why)
    with Cons.prems cr cf show ?thesis
      by (auto simp: on_os_def on_lsp_def lwsl_def emit_def os_frame_def lsp_frame_def proj_append)
  next
    case (Inr r)
    define s1 where "s1 = on_os (emit (EvFcntl (retained (s_lsp s) n)))
        (on_lsp (\<lambda>l. l\<lparr>stdwsi := (stdwsi l)(n := Some r)\<rparr>)
          (s\<lparr>s_ctx := wsi_upd r (\<lambda>x. x\<lparr>desc_sockfd := retained (s_lsp s) n\<rparr>)
             (wsi_upd r (\<lambda>x. x\<lparr>wsi_protocol := Some pcol\<rparr>)
               (lws_vhost_bind_wsi (vh a) r (wsi_upd r (\<lambda>x. x\<lparr>lsp_channel := int n\<rparr>) c)))\<rparr>))"
    have f1: "lsp_frame (s_lsp s) (s_lsp s1)" "pipe_fds (s_lsp s1) = pipe_fds (s_lsp s)"
      "os_frame (s_os s) (s_os s1)" "open_fds (s_os s1) = open_fds (s_os s)"
      "pipes_of (trace (s_os s1)) = pipes_of (trace (s_os s))"
      "bad_closes_of (trace (s_os s1)) = bad_closes_of (trace (s_os s))"
      "create_fails_of (trace (s_os s1)) = create_fails_of (trace (s_os s))"
      "vhost_list (s_ctx s1) = vhost_list (s_ctx s)"
      "fd_limit_per_thread (s_ctx s1) = fd_limit_per_thread (s_ctx s)"
      "pt_fds (s_ctx s1) = pt_fds (s_ctx s)"
      using cf by (simp_all add: s1_def on_os_def on_lsp_def emit_def os_frame_def lsp_frame_def
          proj_append wsi_upd_frame lws_vhost_bind_wsi_def)
    show ?thesis
    proof (cases "fcntl_ok orc n")
      case False
      with Cons.prems cr Inr have "s' = on_os (lwsl ''setting NONBLOCK failed'') s1"
        by (simp add: s1_def Let_def)
      with f1 show ?thesis
        by (simp add: on_os_def lwsl_def os_frame_def proj_append)
    next
      case True
      with Cons.prems cr Inr have "create_wsis a orc pcol ns s1 = (ok, s')"
        by (simp add: s1_def Let_def)
      from Cons.IH [OF this] f1 show ?thesis
        by (auto intro: os_frame_trans lsp_frame_trans)
    qed
  qed
qed

lemma close_fd_frame:
  "os_frame w (close_fd fd w)"
  "create_fails_of (trace (close_fd fd w)) = create_fails_of (trace w)"
  "pipes_of (trace (close_fd fd w)) = pipes_of (trace w)"
  by (simp_all add: close_fd_def emit_def os_frame_def proj_append)

lemma bail1_step_frame:
  "s_lsp (bail1_step n s) = s_lsp s \<and> s_ctx (bail1_step n s) = s_ctx s \<and>
   os_frame (s_os s) (s_os (bail1_step n s)) \<and>
   create_fails_of (trace (s_os (bail1_step n s))) = create_fails_of (trace (s_os s)) \<and>
   pipes_of (trace (s_os (bail1_step n s))) = pipes_of (trace (s_os s))"
  by (auto simp: bail1_step_def on_os_def Let_def close_fd_frame intro: os_frame_trans close_fd_frame(1))

lemma bail1_frame:
  "fst (bail1 s) = Returned (-1) \<and>
   s_lsp (snd (bail1 s)) = s_lsp s \<and> s_ctx (snd (bail1 s)) = s_ctx s \<and>
   os_frame (s_os s) (s_os (snd (bail1 s))) \<and>
   create_fails_of (trace (s_os (snd (bail1 s)))) = create_fails_of (trace (s_os s)) \<and>
   pipes_of (trace (s_os (snd (bail1 s)))) = pipes_of (trace (s_os s))"
proof -
  have "os_frame (s_os s) (s_os (bail1_step 2 (bail1_step 1 (bail1_step 0 s))))"
    using bail1_step_frame [of 0 s] bail1_step_frame [of 1 "bail1_step 0 s"]
      bail1_step_frame [of 2 "bail1_step 1 (bail1_step 0 s)"]
    by (blast intro: os_frame_trans)
  then show ?thesis
    by (simp add: bail1_def on_os_def lwsl_def bail1_step_frame proj_append os_frame_def)
qed

lemma bail2_step_frame:
  "s_lsp (bail2_step n s) = s_lsp s \<and> s_os (bail2_step n s) = s_os s \<and>
   vhost_list (s_ctx (bail2_step n s)) = vhost_list (s_ctx s)"
  by (simp add: bail2_step_def on_ctx_def lws_free_wsi_def split: option.splits)

lemma bail2_frame:
  "fst (bail2 s) = Returned (-1) \<and>
   s_lsp (snd (bail2 s)) = s_lsp s \<and>
   vhost_list (s_ctx (snd (bail2 s))) = vhost_list (s_ctx s) \<and>
   os_frame (s_os s) (s_os (snd (bail2 s))) \<and>
   create_fails_of (trace (s_os (snd (bail2 s)))) = create_fails_of (trace (s_os s)) \<and>
   pipes_of (trace (s_os (snd (bail2 s)))) = pipes_of (trace (s_os s))"
proof -
  let ?t = "bail2_step 2 (bail2_step 1 (bail2_step 0 s))"
  have t: "s_lsp ?t = s_lsp s" "s_os ?t = s_os s" "vhost_list (s_ctx ?t) = vhost_list (s_ctx s)"
    by (simp_all add: bail2_step_frame del: One_nat_def)
  have b: "bail2 s = bail1 ?t" by (simp add: bail2_def)
  show ?thesis
    unfolding b using bail1_frame [of ?t] t by (simp del: One_nat_def)
qed

lemma bail3_frame:
  "(fst (bail3 n s) = Returned (-1) \<or> fst (bail3 n s) = NullDeref) \<and>
   s_lsp (snd (bail3 n s)) = s_lsp s \<and>
   vhost_list (s_ctx (snd (bail3 n s))) = vhost_list (s_ctx s) \<and>
   os_frame (s_os s) (s_os (snd (bail3 n s))) \<and>
   create_fails_of (trace (s_os (snd (bail3 n s)))) = create_fails_of (trace (s_os s)) \<and>
   pipes_of (trace (s_os (snd (bail3 n s)))) = pipes_of (trace (s_os s))"
proof (cases "bail3_loop n s")
  case None
  then show ?thesis by (simp add: bail3_def)
next
  case (Some s')
  from bail3_loop_frame [OF Some] Some show ?thesis
    using bail2_frame [of s'] by (simp add: bail3_def)
qed

lemma prep_frame_refl [simp]: "prep_frame s s"
  by (simp add: prep_frame_def)

lemma prep_frame_trans: "prep_frame s s1 \<Longrightarrow> prep_frame s1 s2 \<Longrightarrow> prep_frame s s2"
  by (auto simp: prep_frame_def intro: os_frame_trans lsp_frame_trans)

lemma prep_frame_init: "prep_frame s (init_pipe_fds s)"
  by (simp add: prep_frame_def init_pipe_fds_def on_lsp_def lsp_frame_def)

lemma prep_frame_create_pipes: "create_pipes orc ns s = (ok, s') \<Longrightarrow> prep_frame s s'"
  using create_pipes_frame [of orc ns s ok s'] by (simp add: prep_frame_def)

lemma prep_frame_create_wsis: "create_wsis a orc pcol ns s = (ok, s') \<Longrightarrow> prep_frame s s'"
  using create_wsis_frame [of a orc pcol ns s ok s'] by (simp add: prep_frame_def)

lemma prep_frame_register: "register_wsis a orc ns s = (g, s') \<Longrightarrow> prep_frame s s'"
  using register_wsis_frame [of a orc ns s g s'] by (simp add: prep_frame_def)

lemma prep_frame_arm: "arm_pollfd orc s = (g, s') \<Longrightarrow> prep_frame s s'"
  using arm_pollfd_frame [of orc s g s'] by (simp add: prep_frame_def)

lemma prep_frame_bail1: "prep_frame s (snd (bail1 s))"
  using bail1_frame [of s] by (simp add: prep_frame_def)

lemma prep_frame_bail2: "prep_frame s (snd (bail2 s))"
  using bail2_frame [of s] by (simp add: prep_frame_def)

lemma prep_frame_bail3: "prep_frame s (snd (bail3 n s))"
  using bail3_frame [of n s] by (simp add: prep_frame_def)

lemma prep_frame_log: "prep_frame s (on_os (lwsl msg) s)"
  by (simp add: prep_frame_def on_os_def lwsl_def os_frame_def proj_append)

lemma spawn_prepare_frame:
  "(case spawn_prepare a orc s of
      Inl (out, s') \<Rightarrow> (out = Returned (-1) \<or> out = NullDeref) \<and> prep_frame s s'
    | Inr s4 \<Rightarrow> prep_frame s s4)"
proof (cases "vhost_list (s_ctx s)")
  case Nil
  then show ?thesis by (simp add: spawn_prepare_def)
next
  case (Cons v0 vs)
  show ?thesis
  proof (cases "case pcon a of None \<Rightarrow> default_protocol v0
                | Some name \<Rightarrow> lws_vhost_name_to_protocol (vh a) name")
    case None
    with Cons show ?thesis by (simp add: spawn_prepare_def prep_frame_log)
  next
    case (Some pcol)
    obtain ok1 s1 where p1: "create_pipes orc [0, 1, 2] (init_pipe_fds s) = (ok1, s1)" by force
    have f1: "prep_frame s s1"
      using prep_frame_init prep_frame_create_pipes [OF p1] by (rule prep_frame_trans)
    obtain ok2 s2 where p2: "create_wsis a orc pcol [0, 1, 2] s1 = (ok2, s2)" by force
    have f2: "prep_frame s s2"
      using f1 prep_frame_create_wsis [OF p2] by (rule prep_frame_trans)
    obtain g3 s3 where p3: "register_wsis a orc [0, 1, 2] s2 = (g3, s3)" by force
    have f3: "prep_frame s s3"
      using f2 prep_frame_register [OF p3] by (rule prep_frame_trans)
    obtain g4 s4 where p4: "arm_pollfd orc s3 = (g4, s4)" by force
    have f4: "prep_frame s s4"
      using f3 prep_frame_arm [OF p4] by (rule prep_frame_trans)
    have b1: "prep_frame s (snd (bail1 s1))"
      using f1 prep_frame_bail1 by (rule prep_frame_trans)
    have b2: "prep_frame s (snd (bail2 s2))"
      using f2 prep_frame_bail2 by (rule prep_frame_trans)
    have b3: "prep_frame s (snd (bail3 n s3))" for n
      using f3 prep_frame_bail3 by (rule prep_frame_trans)
    have b4: "prep_frame s (snd (bail3 n s4))" for n
      using f4 prep_frame_bail3 by (rule prep_frame_trans)
    show ?thesis
      using Cons Some p1 p2 p3 p4 f3 f4 b1 b2 b3 b4
        bail1_frame [of s1] bail2_frame [of s2] bail3_frame [of _ s3] bail3_frame [of _ s4]
      by (cases ok1; cases ok2; cases g3; cases g4)
         (simp_all add: spawn_prepare_def split_beta)
  qed
qed

section \<open>The preparation phase\<close>

lemma create_pipes_ok:
  "\<forall>n\<in>set ns. pipe_ok orc n \<Longrightarrow>
     fst (create_pipes orc ns s) = True \<and>
     length (pipes_of (trace (s_os (snd (create_pipes orc ns s))))) =
       length (pipes_of (trace (s_os s))) + length ns"
proof (induction ns arbitrary: s)
  case Nil
  then show ?case by simp
next
  case (Cons n ns)
  obtain fds w where p: "pipe True (s_os s) = (Some fds, w)"
    by (simp add: pipe_def Let_def)
  then have w: "length (pipes_of (trace w)) = Suc (length (pipes_of (trace (s_os s))))"
    by (auto simp: pipe_def Let_def emit_def proj_append)
  let ?s1 = "on_lsp (\<lambda>l. l\<lparr>pipe_fds := (pipe_fds l)(n := fds)\<rparr>) (s\<lparr>s_os := w\<rparr>)"
  have e: "create_pipes orc (n # ns) s = create_pipes orc ns ?s1"
    using Cons.prems p by simp
  have "s_os ?s1 = w" by (simp add: on_lsp_def)
  with Cons.IH [of ?s1] Cons.prems w show ?case
    unfolding e by simp
qed

lemma create_wsis_at_capacity:
  "at_capacity (s_ctx s) (tsi a) \<Longrightarrow> vhost_list (s_ctx s) \<noteq> [] \<Longrightarrow>
     fst (create_wsis a orc pcol (n # ns) s) = False \<and>
     create_fails_of (trace (s_os (snd (create_wsis a orc pcol (n # ns) s)))) =
       create_fails_of (trace (s_os s)) @ [NoSpace] \<and>
     pipes_of (trace (s_os (snd (create_wsis a orc pcol (n # ns) s)))) = pipes_of (trace (s_os s))"
  by (simp add: at_capacity_def lws_create_basic_wsi_def on_os_def on_lsp_def lwsl_def emit_def
      proj_append)

lemma create_wsis_ok:
  "\<forall>n\<in>set ns. zalloc_ok orc n \<and> fcntl_ok orc n \<Longrightarrow>
   \<not> at_capacity (s_ctx s) (tsi a) \<Longrightarrow> vhost_list (s_ctx s) \<noteq> [] \<Longrightarrow>
     fst (create_wsis a orc pcol ns s) = True \<and>
     (\<forall>n. n \<in> set ns \<or> stdwsi (s_lsp s) n \<noteq> None \<longrightarrow>
          stdwsi (s_lsp (snd (create_wsis a orc pcol ns s))) n \<noteq> None)"
proof (induction ns arbitrary: s)
  case Nil
  then show ?case by simp
next
  case (Cons n ns)
  obtain r c where cr: "lws_create_basic_wsi (s_ctx s) (tsi a) (role_ops_of (s_lsp s)) (zalloc_ok orc n) = (Inr r, c)"
    using Cons.prems by (simp add: lws_create_basic_wsi_def at_capacity_def Let_def)
  note cf = create_basic_wsi_frame [OF cr]
  define s1 where "s1 = on_os (emit (EvFcntl (retained (s_lsp s) n)))
        (on_lsp (\<lambda>l. l\<lparr>stdwsi := (stdwsi l)(n := Some r)\<rparr>)
          (s\<lparr>s_ctx := wsi_upd r (\<lambda>x. x\<lparr>desc_sockfd := retained (s_lsp s) n\<rparr>)
             (wsi_upd r (\<lambda>x. x\<lparr>wsi_protocol := Some pcol\<rparr>)
               (lws_vhost_bind_wsi (vh a) r (wsi_upd r (\<lambda>x. x\<lparr>lsp_channel := int n\<rparr>) c)))\<rparr>))"
  have e: "create_wsis a orc pcol (n # ns) s = create_wsis a orc pcol ns s1"
    using Cons.prems cr by (simp add: s1_def Let_def)
  have c1: "\<not> at_capacity (s_ctx s1) (tsi a)" "vhost_list (s_ctx s1) \<noteq> []"
    using Cons.prems cf
    by (simp_all add: s1_def at_capacity_def fds_count_def on_os_def on_lsp_def wsi_upd_frame
        lws_vhost_bind_wsi_def)
  have st: "stdwsi (s_lsp s1) = (stdwsi (s_lsp s))(n := Some r)"
    by (simp add: s1_def on_os_def on_lsp_def)
  from Cons.IH [of s1] Cons.prems c1 st show ?case
    unfolding e by auto
qed

lemma register_wsis_ok:
  "\<forall>n\<in>set ns. stdwsi (s_lsp s) n \<noteq> None \<and> accepts orc n \<and> insert_ok orc n \<Longrightarrow>
     fst (register_wsis a orc ns s) = Done"
proof (induction ns arbitrary: s)
  case Nil
  then show ?case by simp
next
  case (Cons n ns)
  then obtain r where r: "stdwsi (s_lsp s) n = Some r" by auto
  let ?s1 = "on_ctx (link_parent (opt_parent a) r) (on_ctx (insert_wsi_socket_into_fds r) s)"
  have e: "register_wsis a orc (n # ns) s = register_wsis a orc ns ?s1"
    using Cons.prems r by (auto simp: accepts_def split: option.splits)
  have "s_lsp ?s1 = s_lsp s" by (simp add: on_ctx_def)
  with Cons.IH [of ?s1] Cons.prems show ?case unfolding e by simp
qed

lemma arm_pollfd_ok:
  assumes "stdwsi (s_lsp s) 0 \<noteq> None" "stdwsi (s_lsp s) 1 \<noteq> None" "stdwsi (s_lsp s) 2 \<noteq> None"
    and "change_pollfd_ok orc 0" "change_pollfd_ok orc 1" "change_pollfd_ok orc 2"
  shows "fst (arm_pollfd orc s) = Done"
proof -
  obtain g0 s0 where a0: "arm_one orc 0 LWS_POLLIN LWS_POLLOUT s = (g0, s0)" by force
  obtain g1 s1 where a1: "arm_one orc 1 LWS_POLLOUT LWS_POLLIN s0 = (g1, s1)" by force
  obtain g2 s2 where a2: "arm_one orc 2 LWS_POLLOUT LWS_POLLIN s1 = (g2, s2)" by force
  note f = arm_one_frame [OF a0] arm_one_frame [OF a1] arm_one_frame [OF a2]
  have "g0 = Done" using a0 assms by (auto simp: arm_one_def split: option.splits)
  moreover have "g1 = Done" using a1 assms f by (auto simp: arm_one_def split: option.splits)
  moreover have "g2 = Done" using a2 assms f by (auto simp: arm_one_def split: option.splits)
  ultimately show ?thesis using a0 a1 a2 by (simp add: arm_pollfd_def)
qed

lemma resolve_protocol_Some:
  "resolve_protocol a c = Some pcol \<Longrightarrow>
     \<exists>v0 vs. vhost_list c = v0 # vs \<and>
       (case pcon a of None \<Rightarrow> default_protocol v0
        | Some name \<Rightarrow> lws_vhost_name_to_protocol (vh a) name) = Some pcol"
  by (auto simp: resolve_protocol_def split: list.splits)

lemma prepare_ok_D:
  "prepare_ok orc \<Longrightarrow> n \<in> {0, 1, 2} \<Longrightarrow>
     pipe_ok orc n \<and> zalloc_ok orc n \<and> fcntl_ok orc n \<and> accepts orc n \<and> insert_ok orc n \<and>
     change_pollfd_ok orc n"
  by (auto simp: prepare_ok_def)

lemma init_pipe_fds_frame:
  "s_ctx (init_pipe_fds s) = s_ctx s" "s_os (init_pipe_fds s) = s_os s"
  "stdwsi (s_lsp (init_pipe_fds s)) = stdwsi (s_lsp s)"
  by (simp_all add: init_pipe_fds_def on_lsp_def)

lemma prepare_succeeds:
  assumes ok: "prepare_ok orc"
    and res: "resolve_protocol a (s_ctx s) = Some pcol"
    and cap: "\<not> at_capacity (s_ctx s) (tsi a)"
  shows "\<exists>s4. spawn_prepare a orc s = Inr s4 \<and> prep_frame s s4 \<and>
           stdwsi (s_lsp s4) 0 \<noteq> None \<and> stdwsi (s_lsp s4) 1 \<noteq> None \<and>
           stdwsi (s_lsp s4) 2 \<noteq> None"
proof -
  from resolve_protocol_Some [OF res] obtain v0 vs where
    vl: "vhost_list (s_ctx s) = v0 # vs" and
    pc: "(case pcon a of None \<Rightarrow> default_protocol v0
          | Some name \<Rightarrow> lws_vhost_name_to_protocol (vh a) name) = Some pcol"
    by blast
  note d = prepare_ok_D [OF ok]
  obtain ok1 s1 where p1: "create_pipes orc [0, 1, 2] (init_pipe_fds s) = (ok1, s1)" by force
  have ok1: "ok1" using create_pipes_ok [where ns = "[0, 1, 2]" and orc = orc and s = "init_pipe_fds s"] d p1 by simp
  note f1 = create_pipes_frame [OF p1]
  have c1: "\<not> at_capacity (s_ctx s1) (tsi a)" "vhost_list (s_ctx s1) \<noteq> []"
    using f1 cap vl by (simp_all add: init_pipe_fds_frame)
  obtain ok2 s2 where p2: "create_wsis a orc pcol [0, 1, 2] s1 = (ok2, s2)" by force
  have w: "ok2 \<and> stdwsi (s_lsp s2) 0 \<noteq> None \<and> stdwsi (s_lsp s2) 1 \<noteq> None \<and>
      stdwsi (s_lsp s2) 2 \<noteq> None"
    using create_wsis_ok [where ns = "[0, 1, 2]" and orc = orc and s = s1 and a = a and pcol = pcol] d c1 p2 by simp
  obtain g3 s3 where p3: "register_wsis a orc [0, 1, 2] s2 = (g3, s3)" by force
  have g3: "g3 = Done"
    using register_wsis_ok [where ns = "[0, 1, 2]" and orc = orc and s = s2 and a = a] d w p3 by simp
  note f3 = register_wsis_frame [OF p3]
  obtain g4 s4 where p4: "arm_pollfd orc s3 = (g4, s4)" by force
  have g4: "g4 = Done"
    using arm_pollfd_ok [where s = s3 and orc = orc] d w f3 p4 by simp
  note f4 = arm_pollfd_frame [OF p4]
  have e: "spawn_prepare a orc s = Inr s4"
    using vl pc p1 ok1 p2 w p3 g3 p4 g4 by (simp add: spawn_prepare_def)
  have "prep_frame s s4"
    using spawn_prepare_frame [where a = a and orc = orc and s = s] e by simp
  with e w f3 f4 show ?thesis by simp
qed

lemma spawn_at_capacity:
  assumes cap: "at_capacity (s_ctx s) (tsi a)" and vl: "vhost_list (s_ctx s) \<noteq> []"
  shows "fst (lws_spawn_piped b a orc s) = Returned (-1)"
    and "resolve_protocol a (s_ctx s) \<noteq> None \<Longrightarrow>
         pipe_ok orc 0 \<Longrightarrow> pipe_ok orc 1 \<Longrightarrow> pipe_ok orc 2 \<Longrightarrow>
           length (pipes_of (trace (s_os (snd (lws_spawn_piped b a orc s))))) =
             length (pipes_of (trace (s_os s))) + 3 \<and>
           create_fails_of (trace (s_os (snd (lws_spawn_piped b a orc s)))) =
             create_fails_of (trace (s_os s)) @ [NoSpace]"
proof -
  obtain v0 vs where v: "vhost_list (s_ctx s) = v0 # vs" using vl by (cases "vhost_list (s_ctx s)") auto
  obtain ok1 s1 where p1: "create_pipes orc [0, 1, 2] (init_pipe_fds s) = (ok1, s1)" by force
  note f1 = create_pipes_frame [OF p1]
  have c1: "at_capacity (s_ctx s1) (tsi a)" "vhost_list (s_ctx s1) \<noteq> []"
    using f1 cap vl by (simp_all add: init_pipe_fds_frame)
  note w = create_wsis_at_capacity [OF c1, where orc = orc and n = 0 and ns = "[1, 2]"]
  show "fst (lws_spawn_piped b a orc s) = Returned (-1)"
  proof (cases "resolve_protocol a (s_ctx s)")
    case None
    then show ?thesis using v
      by (simp add: lws_spawn_piped_def spawn_prepare_def resolve_protocol_def)
  next
    case (Some pcol)
    then show ?thesis using v p1 w [where pcol = pcol] bail1_frame [of s1]
        bail2_frame [of "snd (create_wsis a orc pcol [0, 1, 2] s1)"]
      by (cases ok1)
        (simp_all add: lws_spawn_piped_def spawn_prepare_def resolve_protocol_def split_beta)
  qed
  assume r: "resolve_protocol a (s_ctx s) \<noteq> None" and pk: "pipe_ok orc 0" "pipe_ok orc 1" "pipe_ok orc 2"
  then obtain pcol where pcol: "resolve_protocol a (s_ctx s) = Some pcol" by auto
  have ok1: "ok1 \<and> length (pipes_of (trace (s_os s1))) = length (pipes_of (trace (s_os s))) + 3"
    using create_pipes_ok [where ns = "[0, 1, 2]" and orc = orc and s = "init_pipe_fds s"] pk p1
    by (simp add: init_pipe_fds_frame)
  let ?s2 = "snd (create_wsis a orc pcol [0, 1, 2] s1)"
  have e: "lws_spawn_piped b a orc s = bail2 ?s2"
    using v pcol p1 ok1 w [where pcol = pcol]
    by (simp add: lws_spawn_piped_def spawn_prepare_def resolve_protocol_def split_beta)
  show "length (pipes_of (trace (s_os (snd (lws_spawn_piped b a orc s))))) =
             length (pipes_of (trace (s_os s))) + 3 \<and>
           create_fails_of (trace (s_os (snd (lws_spawn_piped b a orc s)))) =
             create_fails_of (trace (s_os s)) @ [NoSpace]"
    unfolding e using bail2_frame [of ?s2] w [where pcol = pcol] ok1 f1
    by (simp add: init_pipe_fds_frame)
qed

section \<open>The duplication and the two branches\<close>

lemma exec_or_exit_outcome:
  "fst (exec_or_exit orc a env s) = exec_outcome orc a env \<and>
   create_fails_of (trace (s_os (snd (exec_or_exit orc a env s)))) = create_fails_of (trace (s_os s))"
  by (simp add: exec_or_exit_def exec_outcome_def on_os_def emit_def proj_append split: list.splits)

lemma setenv_loop_environ:
  "map_option environ (setenv_loop env ms w) = apply_env env ms (environ w)"
proof (induction ms arbitrary: w)
  case Nil
  then show ?case by simp
next
  case (Cons m ms)
  show ?case
  proof (cases "m < length env")
    case False
    then show ?thesis by simp
  next
    case True
    show ?thesis
    proof (cases "split_eq (env ! m)")
      case None
      with True show ?thesis by simp
    next
      case (Some kv)
      obtain k v where kv: "kv = (k, v)" by force
      have "environ (setenv k v w) = (if k = [] then environ w else AList.update k v (environ w))"
        by (simp add: setenv_def emit_def)
      with True Some kv Cons.IH [of "setenv k v w"] show ?thesis by simp
    qed
  qed
qed

lemma setenv_loop_trace:
  "setenv_loop env ms w = Some w' \<Longrightarrow> create_fails_of (trace w') = create_fails_of (trace w)"
proof (induction ms arbitrary: w)
  case Nil
  then show ?case by simp
next
  case (Cons m ms)
  then obtain k v where kv: "split_eq (env ! m) = Some (k, v)"
    and l: "setenv_loop env ms (setenv k v w) = Some w'"
    by (auto split: if_splits option.splits)
  have "create_fails_of (trace (setenv k v w)) = create_fails_of (trace w)"
    by (simp add: setenv_def emit_def proj_append)
  with Cons.IH [OF l] show ?case by simp
qed

lemma child_dup2_frame:
  "child_dup2 orc ms s = (ok, s') \<Longrightarrow>
     s_lsp s' = s_lsp s \<and> s_ctx s' = s_ctx s \<and> environ (s_os s') = environ (s_os s) \<and>
     create_fails_of (trace (s_os s')) = create_fails_of (trace (s_os s))"
proof (induction ms arbitrary: s)
  case Nil
  then show ?case by simp
next
  case (Cons m ms)
  obtain r w where d: "dup2 (dup2_ok orc m) (other_half (s_lsp s) m) (int m) (s_os s) = (r, w)"
    by force
  then have w: "environ w = environ (s_os s) \<and> create_fails_of (trace w) = create_fails_of (trace (s_os s))"
    by (auto simp: dup2_def emit_def proj_append split: if_splits)
  show ?case
  proof (cases "r < 0")
    case True
    with Cons.prems d w show ?thesis
      by (auto simp: on_os_def lwsl_def proj_append)
  next
    case False
    let ?s1 = "on_os (close_fd (snd (pipe_fds (s_lsp s) m)))
                 (on_os (close_fd (fst (pipe_fds (s_lsp s) m))) (s\<lparr>s_os := w\<rparr>))"
    from Cons.prems d False have "child_dup2 orc ms ?s1 = (ok, s')" by simp
    note ih = Cons.IH [OF this]
    have "s_lsp ?s1 = s_lsp s" "s_ctx ?s1 = s_ctx s" "environ (s_os ?s1) = environ w"
      "create_fails_of (trace (s_os ?s1)) = create_fails_of (trace w)"
      by (simp_all add: on_os_def close_fd_def emit_def proj_append)
    with ih w show ?thesis by simp
  qed
qed

lemma child_dup2_outcome:
  "fst (child_dup2 orc (m # ms) s) \<Longrightarrow> dup2_ok orc m"
  "\<forall>m\<in>set ms. dup2_ok orc m \<Longrightarrow> fst (child_dup2 orc ms s)"
proof -
  show "fst (child_dup2 orc (m # ms) s) \<Longrightarrow> dup2_ok orc m"
    by (auto simp: dup2_def split_beta split: if_splits)
  show "\<forall>m\<in>set ms. dup2_ok orc m \<Longrightarrow> fst (child_dup2 orc ms s)"
    by (induction ms arbitrary: s) (auto simp: dup2_def split_beta)
qed

lemma bail3_loop_Some:
  "\<forall>k<n. stdwsi (s_lsp s) k \<noteq> None \<Longrightarrow> bail3_loop n s \<noteq> None"
proof (induction n arbitrary: s)
  case 0
  then show ?case by simp
next
  case (Suc n)
  then obtain r where r: "stdwsi (s_lsp s) n = Some r" by auto
  have "s_lsp (on_ctx (remove_wsi_socket_from_fds r) s) = s_lsp s" by (simp add: on_ctx_def)
  with Suc.IH [of "on_ctx (remove_wsi_socket_from_fds r) s"] Suc.prems r show ?case by simp
qed

lemma bail3_returns:
  "\<forall>k<n. stdwsi (s_lsp s) k \<noteq> None \<Longrightarrow> fst (bail3 n s) = Returned (-1)"
  using bail3_loop_Some [of n s] bail2_frame by (auto simp: bail3_def)

lemma chdir_tmp_frame:
  "environ (chdir_tmp ok w) = environ w"
  "create_fails_of (trace (chdir_tmp ok w)) = create_fails_of (trace w)"
  by (simp_all add: chdir_tmp_def emit_def lwsl_def proj_append)

lemma child_branch_create_fails:
  "create_fails_of (trace (s_os (snd (child_branch b a orc n s)))) = create_fails_of (trace (s_os s))"
proof -
  obtain ok s1 where d: "child_dup2 orc [0, 1, 2] (on_os (chdir_tmp (chdir_ok orc)) s) = (ok, s1)"
    by force
  from child_dup2_frame [OF d]
  have f: "create_fails_of (trace (s_os s1)) = create_fails_of (trace (s_os s))"
    by (simp add: on_os_def chdir_tmp_frame)
  show ?thesis
  proof (cases ok)
    case False
    with d f bail3_frame [of n s1] show ?thesis by (simp add: child_branch_def)
  next
    case True
    show ?thesis
    proof (cases "have_vfork_execvpe b")
      case v: True
      with d True f exec_or_exit_outcome [of orc a "env_array a" s1] show ?thesis
        by (simp add: child_branch_def)
    next
      case v: False
      show ?thesis
      proof (cases "setenv_loop (env_array a) [0..<n] (s_os s1)")
        case None
        with d True v f show ?thesis by (simp add: child_branch_def)
      next
        case (Some w)
        from setenv_loop_trace [OF Some] d True v f Some
          exec_or_exit_outcome [of orc a "env_strings (environ w)" "s1\<lparr>s_os := w\<rparr>"]
        show ?thesis by (simp add: child_branch_def)
      qed
    qed
  qed
qed

lemma child_branch_dup2_failed:
  assumes "\<not> dup2_ok orc 0" and "\<forall>k<n. stdwsi (s_lsp s) k \<noteq> None"
  shows "fst (child_branch b a orc n s) = Returned (-1)"
proof -
  obtain ok s1 where d: "child_dup2 orc [0, 1, 2] (on_os (chdir_tmp (chdir_ok orc)) s) = (ok, s1)"
    by force
  have "\<not> ok"
    using child_dup2_outcome(1) [where orc = orc and m = 0 and ms = "[1, 2]"
        and s = "on_os (chdir_tmp (chdir_ok orc)) s"] d assms(1) by auto
  moreover have "s_lsp s1 = s_lsp s" using child_dup2_frame [OF d] by (simp add: on_os_def)
  ultimately show ?thesis
    using d assms(2) bail3_returns [of n s1] by (simp add: child_branch_def)
qed

lemma child_branch_exec:
  assumes "dup2_ok orc 0" "dup2_ok orc 1" "dup2_ok orc 2"
  shows "fst (child_branch b a orc n s) = child_env_outcome b a orc n (environ (s_os s))"
proof -
  obtain ok s1 where d: "child_dup2 orc [0, 1, 2] (on_os (chdir_tmp (chdir_ok orc)) s) = (ok, s1)"
    by force
  have ok: "ok"
    using child_dup2_outcome(2) [where orc = orc and ms = "[0, 1, 2]"
        and s = "on_os (chdir_tmp (chdir_ok orc)) s"] d assms by auto
  have e: "environ (s_os s1) = environ (s_os s)"
    using child_dup2_frame [OF d] by (simp add: on_os_def chdir_tmp_frame)
  show ?thesis
  proof (cases "have_vfork_execvpe b")
    case True
    with d ok exec_or_exit_outcome [of orc a "env_array a" s1] show ?thesis
      by (simp add: child_branch_def child_env_outcome_def)
  next
    case False
    show ?thesis
    proof (cases "setenv_loop (env_array a) [0..<n] (s_os s1)")
      case None
      with setenv_loop_environ [of "env_array a" "[0..<n]" "s_os s1"] e d ok False
      show ?thesis by (simp add: child_branch_def child_env_outcome_def)
    next
      case (Some w)
      have ae: "apply_env (env_array a) [0..<n] (environ (s_os s)) = Some (environ w)"
        using setenv_loop_environ [of "env_array a" "[0..<n]" "s_os s1"] e Some by simp
      have "child_branch b a orc n s =
          exec_or_exit orc a (env_strings (environ w)) (s1\<lparr>s_os := w\<rparr>)"
        unfolding child_branch_def d using ok False Some by simp
      then show ?thesis
        using ae False exec_or_exit_outcome [of orc a "env_strings (environ w)" "s1\<lparr>s_os := w\<rparr>"]
        by (simp add: child_env_outcome_def)
    qed
  qed
qed

lemma after_fork_frame:
  "s_ctx (after_fork b orc s) = s_ctx s"
  "stdwsi (s_lsp (after_fork b orc s)) = stdwsi (s_lsp s)"
  "pipe_fds (s_lsp (after_fork b orc s)) = pipe_fds (s_lsp s)"
  "child_pid (s_lsp (after_fork b orc s)) = fork_result orc"
  "environ (s_os (after_fork b orc s)) = environ (s_os s)"
  "create_fails_of (trace (s_os (after_fork b orc s))) = create_fails_of (trace (s_os s))"
  by (simp_all add: after_fork_def on_lsp_def on_os_def fork_def prctl_pdeathsig_def setpgrp_def
      emit_def proj_append Let_def)


lemma spawn_fork_cases:
  "spawn_fork b a orc n s =
     (if fork_result orc < 0
      then bail3 n (on_os (lwsl ''fork failed'')
             (on_lsp (\<lambda>l. l\<lparr>child_pid := fork_result orc\<rparr>)
                (on_os (fork (fork_result orc) (fork_new_pid orc)) s)))
      else if fork_result orc \<noteq> 0 then parent_branch a (after_fork b orc s)
      else child_branch b a orc n (after_fork b orc s))"
  by (simp add: spawn_fork_def after_fork_def on_lsp_def on_os_def Let_def)

lemma parent_step_frame:
  "os_frame (s_os s) (s_os (parent_step n s)) \<and>
   create_fails_of (trace (s_os (parent_step n s))) = create_fails_of (trace (s_os s)) \<and>
   s_ctx (parent_step n s) = s_ctx s \<and> s_lsp (parent_step n s) = s_lsp s"
  by (simp add: parent_step_def on_os_def close_fd_def emit_def os_frame_def proj_append)

lemma parent_branch_frame:
  "fst (parent_branch a s) = Returned 0 \<and>
   os_frame (s_os s) (s_os (snd (parent_branch a s))) \<and>
   create_fails_of (trace (s_os (snd (parent_branch a s)))) = create_fails_of (trace (s_os s)) \<and>
   s_ctx (snd (parent_branch a s)) = s_ctx s \<and>
   child_pid (s_lsp (snd (parent_branch a s))) = child_pid (s_lsp s)"
proof -
  let ?t = "parent_step 2 (parent_step 1 (parent_step 0 s))"
  have t: "os_frame (s_os s) (s_os ?t)"
    using parent_step_frame [where n = 0 and s = s]
      parent_step_frame [where n = 1 and s = "parent_step 0 s"]
      parent_step_frame [where n = 2 and s = "parent_step 1 (parent_step 0 s)"]
    by (blast intro: os_frame_trans)
  have u: "create_fails_of (trace (s_os ?t)) = create_fails_of (trace (s_os s))"
    "s_ctx ?t = s_ctx s" "s_lsp ?t = s_lsp s"
    by (simp_all add: parent_step_frame del: One_nat_def)
  show ?thesis
    using t u
    by (simp add: parent_branch_def on_lsp_def lws_dll2_add_head_def lws_sul_schedule_def Let_def
        del: One_nat_def split: option.splits)
qed

lemma spawn_fork_create_fails:
  "create_fails_of (trace (s_os (snd (spawn_fork b a orc n s)))) = create_fails_of (trace (s_os s))"
proof -
  let ?f = "on_os (lwsl ''fork failed'')
             (on_lsp (\<lambda>l. l\<lparr>child_pid := fork_result orc\<rparr>)
                (on_os (fork (fork_result orc) (fork_new_pid orc)) s))"
  have "create_fails_of (trace (s_os ?f)) = create_fails_of (trace (s_os s))"
    by (simp add: on_os_def on_lsp_def lwsl_def fork_def emit_def proj_append)
  then show ?thesis
    using bail3_frame [where n = n and s = ?f] parent_branch_frame [where a = a and s = "after_fork b orc s"]
      child_branch_create_fails [where b = b and a = a and orc = orc and n = n and s = "after_fork b orc s"]
    by (simp add: spawn_fork_cases after_fork_frame)
qed

section \<open>Properties of the launcher\<close>

lemmas ex_defs = os0_def vhost0_def ctx0_def lsp0_def sys0_def args0_def orc0_def bld_fork_def
  bld_vfork_def

lemma ex_prepare_ok: "prepare_ok (orc0\<lparr>fork_result := r, dup2_ok := d, exec_ok := e\<rparr>)"
  by (simp add: prepare_ok_def accepts_def orc0_def)

lemma ex_prepare_ok0: "prepare_ok orc0"
  by (simp add: prepare_ok_def accepts_def orc0_def)

lemma ex_resolve: "resolve_protocol args0 (s_ctx sys0) = Some \<lparr>pr_name = ''http''\<rparr>"
  by (simp add: resolve_protocol_def default_protocol_def ex_defs)

lemma ex_not_at_capacity: "\<not> at_capacity (s_ctx sys0) (tsi args0)"
  by (simp add: at_capacity_def fds_count_def ex_defs)

lemma spawn_parent_success:
  assumes "prepare_ok orc" "resolve_protocol a (s_ctx s) = Some pcol"
    "\<not> at_capacity (s_ctx s) (tsi a)" "fork_result orc > 0"
  shows "fst (lws_spawn_piped b a orc s) = Returned 0"
proof -
  from prepare_succeeds [OF assms(1-3)] obtain s4 where "spawn_prepare a orc s = Inr s4" by blast
  then show ?thesis
    using assms(4) parent_branch_frame [where a = a and s = "after_fork b orc s4"]
    by (simp add: lws_spawn_piped_def spawn_fork_cases)
qed

lemma spawn_child_dup2_failed:
  assumes "prepare_ok orc" "resolve_protocol a (s_ctx s) = Some pcol"
    "\<not> at_capacity (s_ctx s) (tsi a)" "fork_result orc = 0" "\<not> dup2_ok orc 0"
  shows "fst (lws_spawn_piped b a orc s) = Returned (-1)"
proof -
  from prepare_succeeds [OF assms(1-3)] obtain s4 where
    p: "spawn_prepare a orc s = Inr s4" and
    st: "stdwsi (s_lsp s4) 0 \<noteq> None" "stdwsi (s_lsp s4) 1 \<noteq> None" "stdwsi (s_lsp s4) 2 \<noteq> None"
    by blast
  have "\<forall>k<3. stdwsi (s_lsp (after_fork b orc s4)) k \<noteq> None"
  proof (intro allI impI)
    fix k :: nat assume "k < 3"
    then have "k = 0 \<or> k = 1 \<or> k = 2" by auto
    with st show "stdwsi (s_lsp (after_fork b orc s4)) k \<noteq> None"
      by (auto simp: after_fork_frame)
  qed
  from child_branch_dup2_failed [OF assms(5) this] p assms(4) show ?thesis
    by (simp add: lws_spawn_piped_def spawn_fork_cases)
qed

lemma spawn_child_exec:
  assumes "prepare_ok orc" "resolve_protocol a (s_ctx s) = Some pcol"
    "\<not> at_capacity (s_ctx s) (tsi a)" "fork_result orc = 0"
    "dup2_ok orc 0" "dup2_ok orc 1" "dup2_ok orc 2"
  shows "fst (lws_spawn_piped b a orc s) = child_env_outcome b a orc 3 (environ (s_os s))"
proof -
  from prepare_succeeds [OF assms(1-3)] obtain s4 where
    p: "spawn_prepare a orc s = Inr s4" and f: "prep_frame s s4"
    by blast
  have "environ (s_os (after_fork b orc s4)) = environ (s_os s)"
    using f by (simp add: after_fork_frame prep_frame_def os_frame_def)
  with child_branch_exec [OF assms(5-7), where b = b and a = a and n = 3 and s = "after_fork b orc s4"]
    p assms(4)
  show ?thesis by (simp add: lws_spawn_piped_def spawn_fork_cases)
qed

text \<open>
  C1.  Once the duplication has succeeded the parent's call returns 0, and a failing
  program replacement ends the child with \<open>exit(1)\<close>.  A failing \<open>dup2\<close> in the child,
  however, jumps to \<open>bail3\<close>: the child runs the parent's unwind code and returns -1
  from the call instead of terminating.
\<close>

theorem child_redirect_failure_returns:
  "fst (lws_spawn_piped bld_vfork args0 orc0 sys0) = Returned 0 \<and>
   fst (lws_spawn_piped bld_vfork args0 (orc0\<lparr>fork_result := 0, dup2_ok := (\<lambda>_. True), exec_ok := False\<rparr>) sys0)
     = Exited 1 \<and>
   fst (lws_spawn_piped bld_vfork args0 (orc0\<lparr>fork_result := 0, dup2_ok := (\<lambda>_. False), exec_ok := True\<rparr>) sys0)
     = Returned (-1)"
proof -
  have "fst (lws_spawn_piped bld_vfork args0 orc0 sys0) = Returned 0"
    by (rule spawn_parent_success [OF ex_prepare_ok0 ex_resolve ex_not_at_capacity])
      (simp add: orc0_def)
  moreover have "fst (lws_spawn_piped bld_vfork args0
      (orc0\<lparr>fork_result := 0, dup2_ok := (\<lambda>_. True), exec_ok := False\<rparr>) sys0) = Exited 1"
    by (subst spawn_child_exec [OF ex_prepare_ok ex_resolve ex_not_at_capacity])
      (simp_all add: child_env_outcome_def exec_outcome_def bld_vfork_def args0_def)
  moreover have "fst (lws_spawn_piped bld_vfork args0
      (orc0\<lparr>fork_result := 0, dup2_ok := (\<lambda>_. False), exec_ok := True\<rparr>) sys0) = Returned (-1)"
    by (rule spawn_child_dup2_failed [OF ex_prepare_ok ex_resolve ex_not_at_capacity]) simp_all
  ultimately show ?thesis by blast
qed

text \<open>
  C4.  In the build without \<open>vfork\<close>/\<open>execvpe\<close> the loop that applies the environment
  runs \<open>m < n\<close> with the stale loop counter \<open>n = 3\<close>: of a four-entry list only the
  first three entries reach the child (on top of the inherited environment), and a
  list shorter than three entries is read past its end.  The \<open>execvpe\<close> build hands
  over the whole list.
\<close>

theorem child_environment_truncated:
  "fst (lws_spawn_piped bld_fork args0 (orc0\<lparr>fork_result := 0, dup2_ok := (\<lambda>_. True), exec_ok := True\<rparr>) sys0)
     = Execed ''/bin/cat'' [''/bin/cat''] [''PATH=/bin'', ''A=1'', ''B=2'', ''C=3''] \<and>
   fst (lws_spawn_piped bld_vfork args0 (orc0\<lparr>fork_result := 0, dup2_ok := (\<lambda>_. True), exec_ok := True\<rparr>) sys0)
     = Execed ''/bin/cat'' [''/bin/cat''] [''A=1'', ''B=2'', ''C=3'', ''D=4''] \<and>
   fst (lws_spawn_piped bld_fork (args0\<lparr>env_array := [''A=1'']\<rparr>)
      (orc0\<lparr>fork_result := 0, dup2_ok := (\<lambda>_. True), exec_ok := True\<rparr>) sys0) = NullDeref"
proof -
  have r: "resolve_protocol (args0\<lparr>env_array := [''A=1'']\<rparr>) (s_ctx sys0) = Some \<lparr>pr_name = ''http''\<rparr>"
    by (simp add: resolve_protocol_def default_protocol_def ex_defs)
  have c: "\<not> at_capacity (s_ctx sys0) (tsi (args0\<lparr>env_array := [''A=1'']\<rparr>))"
    by (simp add: at_capacity_def fds_count_def ex_defs)
  have "fst (lws_spawn_piped bld_fork args0
      (orc0\<lparr>fork_result := 0, dup2_ok := (\<lambda>_. True), exec_ok := True\<rparr>) sys0)
     = Execed ''/bin/cat'' [''/bin/cat''] [''PATH=/bin'', ''A=1'', ''B=2'', ''C=3'']"
    by (subst spawn_child_exec [OF ex_prepare_ok ex_resolve ex_not_at_capacity])
      (simp_all add: child_env_outcome_def exec_outcome_def env_strings_def split_eq_def
        numeral_3_eq_3 bld_fork_def args0_def sys0_def os0_def)
  moreover have "fst (lws_spawn_piped bld_vfork args0
      (orc0\<lparr>fork_result := 0, dup2_ok := (\<lambda>_. True), exec_ok := True\<rparr>) sys0)
     = Execed ''/bin/cat'' [''/bin/cat''] [''A=1'', ''B=2'', ''C=3'', ''D=4'']"
    by (subst spawn_child_exec [OF ex_prepare_ok ex_resolve ex_not_at_capacity])
      (simp_all add: child_env_outcome_def exec_outcome_def bld_vfork_def args0_def)
  moreover have "fst (lws_spawn_piped bld_fork (args0\<lparr>env_array := [''A=1'']\<rparr>)
      (orc0\<lparr>fork_result := 0, dup2_ok := (\<lambda>_. True), exec_ok := True\<rparr>) sys0) = NullDeref"
    by (subst spawn_child_exec [OF ex_prepare_ok r c])
      (simp_all add: child_env_outcome_def split_eq_def numeral_3_eq_3 bld_fork_def)
  ultimately show ?thesis by blast
qed







lemma spawn_no_vhost_guard:
  assumes "vhost_list (s_ctx s) \<noteq> []"
  shows "(NoVhost \<in> set (create_fails_of (trace (s_os (snd (lws_spawn_piped b a orc s)))))) =
         (NoVhost \<in> set (create_fails_of (trace (s_os s))))"
proof (cases "spawn_prepare a orc s")
  case (Inl r)
  with spawn_prepare_frame [where a = a and orc = orc and s = s] assms show ?thesis
    by (auto simp: lws_spawn_piped_def prep_frame_def)
next
  case (Inr s4)
  with spawn_prepare_frame [where a = a and orc = orc and s = s] assms
    spawn_fork_create_fails [where b = b and a = a and orc = orc and n = 3 and s = s4]
  show ?thesis
    by (simp add: lws_spawn_piped_def prep_frame_def)
qed

text \<open>
  C10.  With a null \<open>vhost_list\<close> the call dereferences a null pointer before
  anything else happens.  In a call that gets past that point the descriptor factory
  never takes its \<open>!context->vhost_list\<close> branch: no creation failure for that
  reason is recorded.  That branch is taken exactly when the list is null.
\<close>

theorem spawn_requires_vhost:
  "(vhost_list (s_ctx s) = [] \<longrightarrow> lws_spawn_piped b a orc s = (NullDeref, s)) \<and>
   (vhost_list (s_ctx s) \<noteq> [] \<longrightarrow>
      (NoVhost \<in> set (create_fails_of (trace (s_os (snd (lws_spawn_piped b a orc s)))))) =
      (NoVhost \<in> set (create_fails_of (trace (s_os s))))) \<and>
   ((fst (lws_create_basic_wsi c t ro z) = Inl NoVhost) = (vhost_list c = []))"
proof -
  have "vhost_list (s_ctx s) = [] \<longrightarrow> lws_spawn_piped b a orc s = (NullDeref, s)"
    by (simp add: lws_spawn_piped_def spawn_prepare_def)
  moreover have "(fst (lws_create_basic_wsi c t ro z) = Inl NoVhost) = (vhost_list c = [])"
    by (simp add: lws_create_basic_wsi_def Let_def)
  ultimately show ?thesis using spawn_no_vhost_guard [of s b a orc] by blast
qed

theorem spawn_requires_vhost_witness:
  "vhost_list (s_ctx (sys0\<lparr>s_ctx := ctx0\<lparr>vhost_list := []\<rparr>\<rparr>)) = [] \<and>
   fst (lws_spawn_piped bld_fork args0 orc0 (sys0\<lparr>s_ctx := ctx0\<lparr>vhost_list := []\<rparr>\<rparr>)) = NullDeref \<and>
   vhost_list (s_ctx sys0) \<noteq> [] \<and>
   NoVhost \<notin> set (create_fails_of (trace (s_os (snd (lws_spawn_piped bld_fork args0 orc0 sys0)))))"
proof -
  have h1: "vhost_list (s_ctx (sys0\<lparr>s_ctx := ctx0\<lparr>vhost_list := []\<rparr>\<rparr>)) = []" by simp
  have h2: "vhost_list (s_ctx sys0) \<noteq> []" by (simp add: sys0_def ctx0_def)
  have t: "create_fails_of (trace (s_os sys0)) = []" by (simp add: sys0_def os0_def)
  note A = spawn_requires_vhost [of "sys0\<lparr>s_ctx := ctx0\<lparr>vhost_list := []\<rparr>\<rparr>" bld_fork args0 orc0,
      THEN conjunct1, rule_format, OF h1]
  note B = spawn_requires_vhost [of sys0 bld_fork args0 orc0,
      THEN conjunct2, THEN conjunct1, rule_format, OF h2]
  show ?thesis using h1 h2 A B t by simp
qed

lemma ex_full:
  "at_capacity (s_ctx sys_full) (tsi args0)" "vhost_list (s_ctx sys_full) \<noteq> []"
  "resolve_protocol args0 (s_ctx sys_full) \<noteq> None"
  "pipes_of (trace (s_os sys_full)) = []" "create_fails_of (trace (s_os sys_full)) = []"
  by (simp_all add: sys_full_def at_capacity_def fds_count_def resolve_protocol_def
      default_protocol_def ex_defs)

text \<open>
  C3, as stated, fails: the capacity check sits in the descriptor factory, which is
  called after the three pipes have been created.  A call made at capacity creates
  three pipes, then fails.
\<close>

theorem spawn_at_capacity_creates_pipes_first:
  "at_capacity (s_ctx sys_full) (tsi args0) \<and>
   fst (lws_spawn_piped bld_fork args0 orc0 sys_full) = Returned (-1) \<and>
   length (pipes_of (trace (s_os (snd (lws_spawn_piped bld_fork args0 orc0 sys_full))))) = 3 \<and>
   create_fails_of (trace (s_os (snd (lws_spawn_piped bld_fork args0 orc0 sys_full)))) = [NoSpace]"
proof -
  have p: "pipe_ok orc0 0" "pipe_ok orc0 1" "pipe_ok orc0 2" by (simp_all add: orc0_def)
  from spawn_at_capacity(1) [OF ex_full(1,2)]
    spawn_at_capacity(2) [OF ex_full(1,2,3) p, where b = bld_fork]
  show ?thesis using ex_full by simp
qed

text \<open>
  C3, amended.  A call made while the per-thread table is at capacity
  (\<open>fds_count = fd_limit_per_thread - 1\<close> in unsigned 32-bit arithmetic), on a context
  with a vhost, returns -1.  When the protocol resolves and the three pipes can be
  created, they are created first and the failure is the capacity check of the first
  descriptor creation.
\<close>

theorem spawn_at_capacity_fails:
  "at_capacity (s_ctx s) (tsi a) \<and> vhost_list (s_ctx s) \<noteq> [] \<longrightarrow>
     fst (lws_spawn_piped b a orc s) = Returned (-1) \<and>
     (resolve_protocol a (s_ctx s) \<noteq> None \<and> pipe_ok orc 0 \<and> pipe_ok orc 1 \<and> pipe_ok orc 2 \<longrightarrow>
        length (pipes_of (trace (s_os (snd (lws_spawn_piped b a orc s))))) =
          length (pipes_of (trace (s_os s))) + 3 \<and>
        create_fails_of (trace (s_os (snd (lws_spawn_piped b a orc s)))) =
          create_fails_of (trace (s_os s)) @ [NoSpace])"
  using spawn_at_capacity [where s = s and a = a and b = b and orc = orc] by blast

theorem spawn_at_capacity_fails_witness:
  "at_capacity (s_ctx sys_full) (tsi args0) \<and> vhost_list (s_ctx sys_full) \<noteq> [] \<and>
   resolve_protocol args0 (s_ctx sys_full) \<noteq> None \<and>
   pipe_ok orc0 0 \<and> pipe_ok orc0 1 \<and> pipe_ok orc0 2 \<and>
   fst (lws_spawn_piped bld_vfork args0 orc0 sys_full) = Returned (-1) \<and>
   create_fails_of (trace (s_os (snd (lws_spawn_piped bld_vfork args0 orc0 sys_full)))) = [NoSpace]"
proof -
  have p: "pipe_ok orc0 0 \<and> pipe_ok orc0 1 \<and> pipe_ok orc0 2" by (simp add: orc0_def)
  have h: "at_capacity (s_ctx sys_full) (tsi args0) \<and> vhost_list (s_ctx sys_full) \<noteq> []"
    using ex_full by simp
  note A = spawn_at_capacity_fails [where s = sys_full and a = args0 and b = bld_vfork and orc = orc0, rule_format, OF h]
  note B = A [THEN conjunct2, rule_format, OF conjI [OF ex_full(3) p]]
  show ?thesis using h p ex_full(3,5) A [THEN conjunct1] B [THEN conjunct2] by simp
qed

section \<open>Unwinding: descriptors of the pipes\<close>










section \<open>Unwinding: the polling table and the descriptor counter\<close>































section \<open>Process groups after the duplication\<close>











end
